theory Spec2Isabelle
  imports
    Complex_Main
    "HOL-Library.Char_ord"
    "HOL-Library.List_Lexorder"
    "HOL-Library.Option_ord"
    "HOL-Library.Product_Lexorder"
    "HOL-Library.Multiset"
begin

section \<open>Python string operations used by the menu application\<close>

text \<open>
  Strings are byte lists. The application only ever strips, splits and compares on the
  ASCII characters \<open>/\<close> and \<open>-\<close>, so the byte view and Python's code-point view agree on
  every operation below.
\<close>

definition lstrip :: "char \<Rightarrow> string \<Rightarrow> string" where
  \<comment> \<open>\<open>s.lstrip(c)\<close>: every leading occurrence of \<open>c\<close> is removed.\<close>
  "lstrip c s = dropWhile (\<lambda>x. x = c) s"

definition rstrip :: "char \<Rightarrow> string \<Rightarrow> string" where
  "rstrip c s = rev (dropWhile (\<lambda>x. x = c) (rev s))"

definition strip :: "char \<Rightarrow> string \<Rightarrow> string" where
  "strip c s = rstrip c (lstrip c s)"

definition split1 :: "char \<Rightarrow> string \<Rightarrow> string list" where
  \<comment> \<open>\<open>s.split(c, 1)\<close>: at most one split, at the first occurrence of \<open>c\<close>.\<close>
  "split1 c s =
     (if c \<in> set s
      then [takeWhile (\<lambda>x. x \<noteq> c) s, tl (dropWhile (\<lambda>x. x \<noteq> c) s)]
      else [s])"

fun split :: "char \<Rightarrow> string \<Rightarrow> string list" where
  \<comment> \<open>\<open>s.split(c)\<close>: the result is never empty.\<close>
  "split c [] = [[]]"
| "split c (x # xs) =
     (if x = c then [] # split c xs
      else (case split c xs of w # ws \<Rightarrow> (x # w) # ws | [] \<Rightarrow> [[x]]))"

definition truthy :: "string option \<Rightarrow> bool" where
  \<comment> \<open>Python truth value of an optional string: \<open>None\<close> and \<open>""\<close> are false.\<close>
  "truthy v = (case v of None \<Rightarrow> False | Some s \<Rightarrow> s \<noteq> [])"

subsection \<open>\<open>django.utils.text.slugify\<close> on ASCII input\<close>

definition lower_char :: "char \<Rightarrow> char" where
  "lower_char c =
     (if CHR ''A'' \<le> c \<and> c \<le> CHR ''Z'' then char_of (of_char c + (32::nat)) else c)"

definition is_word_char :: "char \<Rightarrow> bool" where
  \<comment> \<open>the regular expression class \<open>\w\<close> on ASCII\<close>
  "is_word_char c =
     ((CHR ''a'' \<le> c \<and> c \<le> CHR ''z'') \<or> (CHR ''A'' \<le> c \<and> c \<le> CHR ''Z'')
      \<or> (CHR ''0'' \<le> c \<and> c \<le> CHR ''9'') \<or> c = CHR ''_'')"

definition is_space_char :: "char \<Rightarrow> bool" where
  \<comment> \<open>the regular expression class \<open>\s\<close> on ASCII\<close>
  "is_space_char c = (c \<in> set [CHR '' '', CHR 0x09, CHR 0x0A, CHR 0x0B, CHR 0x0C, CHR 0x0D])"

fun collapse_separators :: "bool \<Rightarrow> string \<Rightarrow> string" where
  \<comment> \<open>\<open>re.sub(r"[-\s]+", "-", value)\<close>; the flag says that the previous character
      belonged to the run being replaced.\<close>
  "collapse_separators prev [] = []"
| "collapse_separators prev (c # cs) =
     (if c = CHR ''-'' \<or> is_space_char c
      then (if prev then collapse_separators True cs
            else CHR ''-'' # collapse_separators True cs)
      else c # collapse_separators False cs)"

definition slugify_ascii :: "string \<Rightarrow> string" where
  "slugify_ascii v =
     (let lowered = map lower_char v;
          kept = filter (\<lambda>c. is_word_char c \<or> is_space_char c \<or> c = CHR ''-'') lowered;
          joined = collapse_separators False kept;
          edge = (\<lambda>c. c = CHR ''-'' \<or> c = CHR ''_'')
      in rev (dropWhile edge (rev (dropWhile edge joined))))"

section \<open>Data model (\<open>menu/models.py\<close>)\<close>

text \<open>
  A model instance is a record of its columns. The primary key is \<open>None\<close> until the
  instance has been saved. Decimal columns are rationals; timestamps are seconds.
\<close>

record SiteSetting =
  pk :: "nat option"
  site_name_en :: string
  site_name_fa :: string
  site_logo :: "string option"
  site_favicon :: "string option"
  hero_headline_en :: string
  hero_headline_fa :: string
  hero_subtitle_en :: string
  hero_subtitle_fa :: string
  contact_email :: string
  contact_phone :: string
  contact_whatsapp :: string
  address_en :: string
  address_fa :: string
  opening_hours :: string
  footer_text_en :: string
  footer_text_fa :: string
  footer_links :: "(string \<times> string) list"
  social_links :: "(string \<times> string) list"
  seo_description_en :: string
  seo_description_fa :: string

record MenuCategory =
  pk :: "nat option"
  created_at :: nat
  updated_at :: nat
  title_en :: string
  title_fa :: string
  description_en :: string
  description_fa :: string
  cover_image :: "string option"
  display_order :: nat
  is_active :: bool

record MenuItem =
  pk :: "nat option"
  created_at :: nat
  updated_at :: nat
  category :: nat
  name_en :: string
  name_fa :: string
  slug :: string
  description_en :: string
  description_fa :: string
  price :: rat
  currency :: string
  image :: "string option"
  is_signature :: bool
  is_available :: bool
  calories :: "nat option"
  preparation_time :: string
  highlight_badge_en :: string
  highlight_badge_fa :: string
  rating :: "rat option"

definition SITE_SETTINGS_CACHE_KEY :: string where
  "SITE_SETTINGS_CACHE_KEY = ''menu.site_settings''"

definition SiteSetting_new :: "string \<Rightarrow> SiteSetting" where
  \<comment> \<open>\<open>SiteSetting(site_name_en=...)\<close>: every other column takes its declared default.\<close>
  "SiteSetting_new name =
     \<lparr> SiteSetting.pk = None, site_name_en = name, site_name_fa = '''',
       site_logo = None, site_favicon = None,
       hero_headline_en = '''', hero_headline_fa = '''',
       hero_subtitle_en = '''', hero_subtitle_fa = '''',
       contact_email = '''', contact_phone = '''', contact_whatsapp = '''',
       address_en = '''', address_fa = '''',
       opening_hours = ''08:00 - 23:00'',
       footer_text_en = '''', footer_text_fa = '''',
       footer_links = [], social_links = [],
       seo_description_en = '''', seo_description_fa = '''' \<rparr>"

subsection \<open>Translatable fields\<close>

text \<open>
  \<open>getattr(self, name, default)\<close> reads an attribute by its name. The text columns of
  each entity are its named attributes; a name that is no text column is absent.
\<close>

definition SiteSetting_getattr :: "SiteSetting \<Rightarrow> string \<rightharpoonup> string" where
  "SiteSetting_getattr s =
     [''site_name_en'' \<mapsto> site_name_en s, ''site_name_fa'' \<mapsto> site_name_fa s,
      ''hero_headline_en'' \<mapsto> hero_headline_en s, ''hero_headline_fa'' \<mapsto> hero_headline_fa s,
      ''hero_subtitle_en'' \<mapsto> hero_subtitle_en s, ''hero_subtitle_fa'' \<mapsto> hero_subtitle_fa s,
      ''contact_email'' \<mapsto> contact_email s, ''contact_phone'' \<mapsto> contact_phone s,
      ''contact_whatsapp'' \<mapsto> contact_whatsapp s,
      ''address_en'' \<mapsto> address_en s, ''address_fa'' \<mapsto> address_fa s,
      ''opening_hours'' \<mapsto> opening_hours s,
      ''footer_text_en'' \<mapsto> footer_text_en s, ''footer_text_fa'' \<mapsto> footer_text_fa s,
      ''seo_description_en'' \<mapsto> seo_description_en s,
      ''seo_description_fa'' \<mapsto> seo_description_fa s]"

definition MenuCategory_getattr :: "MenuCategory \<Rightarrow> string \<rightharpoonup> string" where
  "MenuCategory_getattr c =
     [''title_en'' \<mapsto> title_en c, ''title_fa'' \<mapsto> title_fa c,
      ''description_en'' \<mapsto> MenuCategory.description_en c,
      ''description_fa'' \<mapsto> MenuCategory.description_fa c]"

definition MenuItem_getattr :: "MenuItem \<Rightarrow> string \<rightharpoonup> string" where
  "MenuItem_getattr i =
     [''name_en'' \<mapsto> name_en i, ''name_fa'' \<mapsto> name_fa i, ''slug'' \<mapsto> slug i,
      ''description_en'' \<mapsto> MenuItem.description_en i,
      ''description_fa'' \<mapsto> MenuItem.description_fa i,
      ''currency'' \<mapsto> currency i, ''preparation_time'' \<mapsto> preparation_time i,
      ''highlight_badge_en'' \<mapsto> highlight_badge_en i,
      ''highlight_badge_fa'' \<mapsto> highlight_badge_fa i]"

definition translate :: "(string \<rightharpoonup> string) \<Rightarrow> string option \<Rightarrow> string \<Rightarrow> string" where
  \<comment> \<open>\<open>TranslatableFieldsMixin.translate\<close>; \<open>self\<close> is the attribute lookup of the
      entity and \<open>get_language\<close> the result of \<open>translation.get_language()\<close>.\<close>
  "translate self get_language field_prefix =
     (let active = (case get_language of None \<Rightarrow> ''en'' | Some l \<Rightarrow> if l \<noteq> [] then l else ''en'');
          lang = hd (split CHR ''-'' active);
          preferred_field = field_prefix @ ''_'' @ lang;
          fallback_field = field_prefix @ ''_en'';
          fallback = (case self fallback_field of None \<Rightarrow> '''' | Some v \<Rightarrow> v)
      in case self preferred_field of
           None \<Rightarrow> fallback
         | Some v \<Rightarrow> if v \<noteq> [] then v else fallback)"

subsection \<open>Field validators\<close>

text \<open>
  The validators below are the ones the model declares in the \<open>validators\<close> arguments of
  \<open>price\<close> and \<open>rating\<close>. The checks that the framework derives from the other options
  of a field (digits, blank, choices, uniqueness) are not among them, and no statement
  of this theory speaks about those.
\<close>

datatype error =
  ValidationError "string list"
| IntegrityError string
| ValueError string

datatype validator = MinValueValidator rat | MaxValueValidator rat

fun validator_call :: "validator \<Rightarrow> rat \<Rightarrow> string option" where
  \<comment> \<open>the error code a validator raises on a value, if any\<close>
  "validator_call (MinValueValidator limit_value) v =
     (if v < limit_value then Some ''min_value'' else None)"
| "validator_call (MaxValueValidator limit_value) v =
     (if v > limit_value then Some ''max_value'' else None)"

definition price_validators :: "validator list" where
  \<comment> \<open>\<open>validators=[MinValueValidator(Decimal("0.00"))]\<close>\<close>
  "price_validators = [MinValueValidator 0.00]"

definition rating_validators :: "validator list" where
  \<comment> \<open>\<open>validators=[MinValueValidator(Decimal("0.0")), MaxValueValidator(Decimal("5.0"))]\<close>\<close>
  "rating_validators = [MinValueValidator 0.0, MaxValueValidator 5.0]"

definition run_validators :: "validator list \<Rightarrow> rat option \<Rightarrow> error + unit" where
  \<comment> \<open>running a list of validators on a value: a null value is not validated; every
      validator is called, and the codes raised are collected in one Validation error\<close>
  "run_validators vs v =
     (case v of
        None \<Rightarrow> Inr ()
      | Some x \<Rightarrow>
          (case List.map_filter (\<lambda>f. validator_call f x) vs of
             [] \<Rightarrow> Inr ()
           | e # es \<Rightarrow> Inl (ValidationError (e # es))))"

section \<open>Storage, cache and the save and delete operations\<close>

record cache_entry =
  cached_value :: SiteSetting
  expires_at :: nat

record state =
  site_settings :: "SiteSetting list"
  menu_categories :: "MenuCategory list"
  menu_items :: "MenuItem list"
  cache :: "string \<rightharpoonup> cache_entry"
  now :: nat

definition cache_get :: "(string \<rightharpoonup> cache_entry) \<Rightarrow> nat \<Rightarrow> string \<Rightarrow> SiteSetting option" where
  "cache_get c t key =
     (case c key of
        None \<Rightarrow> None
      | Some e \<Rightarrow> if expires_at e \<le> t then None else Some (cached_value e))"

definition cache_set ::
  "(string \<rightharpoonup> cache_entry) \<Rightarrow> nat \<Rightarrow> string \<Rightarrow> SiteSetting \<Rightarrow> nat \<Rightarrow> (string \<rightharpoonup> cache_entry)" where
  "cache_set c t key v timeout = c(key \<mapsto> \<lparr> cached_value = v, expires_at = t + timeout \<rparr>)"

definition cache_delete :: "(string \<rightharpoonup> cache_entry) \<Rightarrow> string \<Rightarrow> (string \<rightharpoonup> cache_entry)" where
  "cache_delete c key = c(key := None)"

definition fresh_pk :: "nat option list \<Rightarrow> nat" where
  "fresh_pk pks = Suc (fold max (map (\<lambda>k. case k of None \<Rightarrow> 0 | Some n \<Rightarrow> n) pks) 0)"

definition Model_save ::
  "('r \<Rightarrow> nat option) \<Rightarrow> (nat \<Rightarrow> 'r \<Rightarrow> 'r) \<Rightarrow> 'r list \<Rightarrow> 'r \<Rightarrow> 'r \<times> 'r list" where
  \<comment> \<open>\<open>models.Model.save\<close> on one table: update the row with the instance's key,
      insert otherwise (with a new key when the instance has none). No validator runs.\<close>
  "Model_save get_pk set_pk rows obj =
     (case get_pk obj of
        None \<Rightarrow>
          (let obj' = set_pk (fresh_pk (map get_pk rows)) obj in (obj', rows @ [obj']))
      | Some k \<Rightarrow>
          if Some k \<in> set (map get_pk rows)
          then (obj, map (\<lambda>r. if get_pk r = Some k then obj else r) rows)
          else (obj, rows @ [obj]))"

definition SiteSetting_save :: "state \<Rightarrow> SiteSetting \<Rightarrow> SiteSetting \<times> state" where
  "SiteSetting_save st self =
     (let (self', rows) =
            Model_save SiteSetting.pk (\<lambda>k r. r\<lparr>SiteSetting.pk := Some k\<rparr>) (site_settings st) self;
          st' = st\<lparr>site_settings := rows\<rparr>
      in (self', st'\<lparr>cache := cache_delete (cache st') SITE_SETTINGS_CACHE_KEY\<rparr>))"

definition SiteSetting_delete :: "state \<Rightarrow> SiteSetting \<Rightarrow> error + state" where
  "SiteSetting_delete st self =
     (case SiteSetting.pk self of
        None \<Rightarrow> Inl (ValueError ''pk'')
      | Some k \<Rightarrow>
          (let st' = st\<lparr>site_settings := filter (\<lambda>r. SiteSetting.pk r \<noteq> Some k) (site_settings st)\<rparr>
           in Inr (st'\<lparr>cache := cache_delete (cache st') SITE_SETTINGS_CACHE_KEY\<rparr>)))"

definition MenuCategory_save :: "state \<Rightarrow> MenuCategory \<Rightarrow> MenuCategory \<times> state" where
  "MenuCategory_save st self =
     (let (self', rows) =
            Model_save MenuCategory.pk (\<lambda>k r. r\<lparr>MenuCategory.pk := Some k\<rparr>) (menu_categories st)
              (self\<lparr>MenuCategory.updated_at := now st\<rparr>)
      in (self', st\<lparr>menu_categories := rows\<rparr>))"

definition MenuCategory_delete :: "state \<Rightarrow> MenuCategory \<Rightarrow> error + state" where
  \<comment> \<open>the items of the category are deleted with it (\<open>on_delete=CASCADE\<close>)\<close>
  "MenuCategory_delete st self =
     (case MenuCategory.pk self of
        None \<Rightarrow> Inl (ValueError ''pk'')
      | Some k \<Rightarrow>
          Inr (st\<lparr>menu_categories := filter (\<lambda>r. MenuCategory.pk r \<noteq> Some k) (menu_categories st),
                  menu_items := filter (\<lambda>i. category i \<noteq> k) (menu_items st)\<rparr>))"

definition MenuItem_Model_save :: "state \<Rightarrow> MenuItem \<Rightarrow> error + MenuItem \<times> state" where
  \<comment> \<open>\<open>super().save()\<close> of a menu item: the table's constraints (the category exists, the
      slug is unique) are the only checks.\<close>
  "MenuItem_Model_save st self =
     (let obj = self\<lparr>MenuItem.updated_at := now st\<rparr> in
      if Some (category obj) \<notin> set (map MenuCategory.pk (menu_categories st))
      then Inl (IntegrityError ''category_id'')
      else if list_ex (\<lambda>r. slug r = slug obj \<and> MenuItem.pk r \<noteq> MenuItem.pk obj) (menu_items st)
      then Inl (IntegrityError ''slug'')
      else (let (self', rows) =
                  Model_save MenuItem.pk (\<lambda>k r. r\<lparr>MenuItem.pk := Some k\<rparr>) (menu_items st) obj
            in Inr (self', st\<lparr>menu_items := rows\<rparr>)))"

definition MenuItem_assign_slug :: "(string \<Rightarrow> string) \<Rightarrow> MenuItem \<Rightarrow> MenuItem" where
  \<comment> \<open>\<open>if not self.slug: self.slug = slugify(self.name_en)\<close>\<close>
  "MenuItem_assign_slug slugify self =
     (if slug self = [] then self\<lparr>slug := slugify (name_en self)\<rparr> else self)"

definition MenuItem_save ::
  "(string \<Rightarrow> string) \<Rightarrow> state \<Rightarrow> MenuItem \<Rightarrow> error + MenuItem \<times> state" where
  "MenuItem_save slugify st self = MenuItem_Model_save st (MenuItem_assign_slug slugify self)"

definition MenuItem_delete :: "state \<Rightarrow> MenuItem \<Rightarrow> error + state" where
  "MenuItem_delete st self =
     (case MenuItem.pk self of
        None \<Rightarrow> Inl (ValueError ''pk'')
      | Some k \<Rightarrow> Inr (st\<lparr>menu_items := filter (\<lambda>r. MenuItem.pk r \<noteq> Some k) (menu_items st)\<rparr>))"

section \<open>Settings and requests\<close>

record Settings =
  LANGUAGES :: "(string \<times> string) list"
  LANGUAGE_CODE :: string
  LANGUAGE_COOKIE_NAME :: string

record HttpRequest =
  path_info :: string
  COOKIES :: "string \<rightharpoonup> string"
  LANGUAGE_CODE :: "string option"
  has_perm :: "string \<Rightarrow> bool"

section \<open>Administrative interface (\<open>menu/admin.py\<close>)\<close>

definition ModelAdmin_has_add_permission :: "string \<Rightarrow> string \<Rightarrow> HttpRequest \<Rightarrow> bool" where
  \<comment> \<open>the default of \<open>admin.ModelAdmin\<close>: the requesting user holds the model's
      \<open>add\<close> permission\<close>
  "ModelAdmin_has_add_permission app_label model_name request =
     has_perm request (app_label @ ''.'' @ ''add_'' @ model_name)"

definition has_add_permission :: "state \<Rightarrow> HttpRequest \<Rightarrow> bool" where
  \<comment> \<open>\<open>SiteSettingAdmin.has_add_permission\<close>\<close>
  "has_add_permission st request =
     (if site_settings st \<noteq> [] then False
      else ModelAdmin_has_add_permission ''menu'' ''sitesetting'' request)"

section \<open>Context processors (\<open>menu/context_processors.py\<close>)\<close>

definition language_paths :: "Settings \<Rightarrow> HttpRequest \<Rightarrow> (string \<rightharpoonup> string)" where
  \<comment> \<open>\<open>_language_paths\<close>\<close>
  "language_paths settings request =
     (let path = (if path_info request \<noteq> [] then path_info request else ''/'');
          trimmed = lstrip CHR ''/'' path;
          parts = (if trimmed \<noteq> [] then split1 CHR ''/'' trimmed else []);
          language_codes = set (map fst (LANGUAGES settings));
          remainder =
            (if parts \<noteq> [] \<and> hd parts \<in> language_codes
             then (if length parts > 1 then parts ! 1 else [])
             else trimmed);
          remainder = strip CHR ''/'' remainder
      in fold (\<lambda>(code, _) urls.
                 (let suffix = (if remainder \<noteq> [] then remainder @ ''/'' else [])
                  in urls(code \<mapsto> ''/'' @ code @ ''/'' @ suffix)))
           (LANGUAGES settings) Map.empty)"

definition objects_first :: "SiteSetting list \<Rightarrow> SiteSetting option" where
  \<comment> \<open>\<open>SiteSetting.objects.first()\<close>: the row of least primary key, if any\<close>
  "objects_first rows =
     (case sort_key SiteSetting.pk rows of [] \<Rightarrow> None | r # _ \<Rightarrow> Some r)"

record global_context =
  ctx_site_settings :: SiteSetting
  ctx_language_urls :: "string \<rightharpoonup> string"

definition global_settings :: "Settings \<Rightarrow> state \<Rightarrow> HttpRequest \<Rightarrow> global_context \<times> state" where
  "global_settings settings st request =
     (let (settings_instance, st') =
            (case cache_get (cache st) (now st) SITE_SETTINGS_CACHE_KEY of
               Some cached \<Rightarrow> (cached, st)
             | None \<Rightarrow>
                 (let settings_instance =
                        (case objects_first (site_settings st) of
                           Some found \<Rightarrow> found
                         | None \<Rightarrow> SiteSetting_new ''Cafe Menu'')
                  in (settings_instance,
                      st\<lparr>cache := cache_set (cache st) (now st) SITE_SETTINGS_CACHE_KEY
                                    settings_instance (60 * 5)\<rparr>)));
          language_urls = language_paths settings request
      in (\<lparr> ctx_site_settings = settings_instance, ctx_language_urls = language_urls \<rparr>, st'))"

section \<open>Public view (\<open>menu/views.py\<close>)\<close>

fun islice :: "'a list \<Rightarrow> nat \<Rightarrow> 'a list" where
  \<comment> \<open>\<open>itertools.islice(iterable, n)\<close>: nothing is read once \<open>n\<close> elements were taken\<close>
  "islice xs 0 = []"
| "islice [] (Suc n) = []"
| "islice (x # xs) (Suc n) = x # islice xs n"

record home_context =
  categories :: "(MenuCategory \<times> MenuItem list) list"
  signature_items :: "MenuItem list"
  language_selected :: bool

definition prefetch_items :: "state \<Rightarrow> MenuCategory list \<Rightarrow> (MenuCategory \<times> MenuItem list) list" where
  \<comment> \<open>\<open>prefetch_related(Prefetch("items", queryset=...))\<close>: the queryset is evaluated
      once and each category receives, in the queryset's order, the items that refer to it\<close>
  "prefetch_items st cats =
     (let queryset =
            sort_key (\<lambda>i. (\<not> is_signature i, name_en i)) (filter is_available (menu_items st))
      in map (\<lambda>c. (c, filter (\<lambda>i. MenuCategory.pk c = Some (category i)) queryset)) cats)"

definition get_context_data :: "Settings \<Rightarrow> state \<Rightarrow> HttpRequest \<Rightarrow> home_context" where
  \<comment> \<open>\<open>HomePageView.get_context_data\<close>; a category is paired with its \<open>items.all()\<close>\<close>
  "get_context_data settings st request =
     (let categories =
            prefetch_items st (sort_key display_order (filter is_active (menu_categories st)));
          signature_items =
            islice [item. (cat, items) \<leftarrow> categories, item \<leftarrow> items, is_signature item] 4;
          language_cookie = COOKIES request (LANGUAGE_COOKIE_NAME settings);
          current_language = HttpRequest.LANGUAGE_CODE request;
          default_lang = hd (split CHR ''-'' (Settings.LANGUAGE_CODE settings));
          language_selected =
            (truthy language_cookie
             \<or> (truthy current_language
                 \<and> hd (split CHR ''-'' (case current_language of Some l \<Rightarrow> l | None \<Rightarrow> []))
                    \<noteq> default_lang))
      in \<lparr> categories = categories, signature_items = signature_items,
           language_selected = language_selected \<rparr>)"

section \<open>Notions used to state the properties\<close>

definition primary_subtag :: "string \<Rightarrow> string" where
  \<comment> \<open>the part of a language code before its first hyphen\<close>
  "primary_subtag code = takeWhile (\<lambda>c. c \<noteq> CHR ''-'') code"

definition active_lang :: "string option \<Rightarrow> string" where
  \<comment> \<open>the primary subtag of the active language, \<open>en\<close> when none is active\<close>
  "active_lang get_language =
     primary_subtag (case get_language of None \<Rightarrow> ''en'' | Some l \<Rightarrow> if l = [] then ''en'' else l)"

fun saves ::
  "(string \<Rightarrow> string) \<Rightarrow> state \<Rightarrow> MenuItem \<Rightarrow> (MenuItem \<Rightarrow> MenuItem) list
     \<Rightarrow> error + MenuItem \<times> state" where
  \<comment> \<open>a run of saves of one instance; before each save the instance is edited\<close>
  "saves slugify st self [] = Inr (self, st)"
| "saves slugify st self (edit # edits) =
     (case MenuItem_save slugify st (edit self) of
        Inl e \<Rightarrow> Inl e
      | Inr (self', st') \<Rightarrow> saves slugify st' self' edits)"

subsection \<open>Concrete inputs\<close>

definition coffee :: MenuCategory where
  "coffee =
     \<lparr> MenuCategory.pk = Some 1, MenuCategory.created_at = 0, MenuCategory.updated_at = 0,
       title_en = ''Coffee'', title_fa = [],
       MenuCategory.description_en = [], MenuCategory.description_fa = [],
       cover_image = None, display_order = 1, is_active = True \<rparr>"

definition state0 :: state where
  \<comment> \<open>one category, no item, no settings record, an empty cache\<close>
  "state0 =
     \<lparr> site_settings = [], menu_categories = [coffee], menu_items = [],
       cache = Map.empty, now = 1000 \<rparr>"

definition latte :: MenuItem where
  "latte =
     \<lparr> MenuItem.pk = None, MenuItem.created_at = 1000, MenuItem.updated_at = 1000,
       category = 1, name_en = ''Iced Latte'', name_fa = ''Latte'', slug = [],
       MenuItem.description_en = [], MenuItem.description_fa = [],
       price = 4.50, currency = ''USD'', image = None,
       is_signature = True, is_available = True, calories = None,
       preparation_time = [], highlight_badge_en = [], highlight_badge_fa = [],
       rating = Some 5.0 \<rparr>"

definition negative_item :: MenuItem where
  "negative_item = latte\<lparr>price := - 1.00\<rparr>"

definition overrated_item :: MenuItem where
  "overrated_item = latte\<lparr>rating := Some 5.1\<rparr>"

definition saved_latte :: MenuItem where
  "saved_latte = latte\<lparr>MenuItem.pk := Some 1, slug := ''iced-latte''\<rparr>"

definition state1 :: state where
  "state1 = state0\<lparr>menu_items := [saved_latte]\<rparr>"

definition rename_item :: "MenuItem \<Rightarrow> MenuItem" where
  "rename_item i = i\<lparr>name_en := ''Hot Latte''\<rparr>"

definition state2 :: state where
  "state2 = state0\<lparr>menu_items := [rename_item saved_latte]\<rparr>"

definition cafe_settings :: SiteSetting where
  "cafe_settings = (SiteSetting_new ''Cafe Anes'')\<lparr>SiteSetting.pk := Some 1\<rparr>"

definition cached_state :: state where
  \<comment> \<open>the settings record is stored and cached; a rendered page is cached beside it\<close>
  "cached_state =
     state0\<lparr>site_settings := [cafe_settings],
            cache := [SITE_SETTINGS_CACHE_KEY \<mapsto> \<lparr> cached_value = cafe_settings, expires_at = 1200 \<rparr>,
                      ''views.decorators.cache.cache_page'' \<mapsto>
                        \<lparr> cached_value = cafe_settings, expires_at = 1200 \<rparr>]\<rparr>"

definition staff_request :: HttpRequest where
  \<comment> \<open>a request of a user who holds no permission\<close>
  "staff_request =
     \<lparr> path_info = ''/en/admin/menu/sitesetting/'', COOKIES = Map.empty,
       HttpRequest.LANGUAGE_CODE = Some ''en'', has_perm = (\<lambda>perm. False) \<rparr>"

definition superuser_request :: HttpRequest where
  "superuser_request = staff_request\<lparr>has_perm := (\<lambda>perm. True)\<rparr>"

definition en_fa :: Settings where
  "en_fa =
     \<lparr> LANGUAGES = [(''en'', ''English''), (''fa'', ''Persian'')],
       Settings.LANGUAGE_CODE = ''en'', LANGUAGE_COOKIE_NAME = ''django_language'' \<rparr>"

subsection \<open>The language URLs as the specification words them\<close>

definition strip_one_slash :: "string \<Rightarrow> string" where
  \<comment> \<open>a single leading slash is removed\<close>
  "strip_one_slash path = (case path of [] \<Rightarrow> [] | c # cs \<Rightarrow> if c = CHR ''/'' then cs else path)"

definition first_segment :: "string \<Rightarrow> string" where
  \<comment> \<open>the part before the first slash\<close>
  "first_segment trimmed = takeWhile (\<lambda>c. c \<noteq> CHR ''/'') trimmed"

definition rest_after_slash :: "string \<Rightarrow> string" where
  \<comment> \<open>the part after the first slash, empty when there is none\<close>
  "rest_after_slash trimmed = drop 1 (dropWhile (\<lambda>c. c \<noteq> CHR ''/'') trimmed)"

definition language_url :: "string \<Rightarrow> string \<Rightarrow> string" where
  "language_url code remainder =
     (if remainder \<noteq> [] then ''/'' @ code @ ''/'' @ remainder @ ''/'' else ''/'' @ code @ ''/'')"

definition spec_language_urls ::
  "(string \<Rightarrow> string) \<Rightarrow> Settings \<Rightarrow> string \<Rightarrow> (string \<rightharpoonup> string)" where
  \<comment> \<open>the computation in the specification's words; \<open>strip_leading\<close> is its first step\<close>
  "spec_language_urls strip_leading settings path =
     (let trimmed = strip_leading path;
          codes = set (map fst (LANGUAGES settings));
          remainder =
            strip CHR ''/''
              (if first_segment trimmed \<in> codes then rest_after_slash trimmed else trimmed)
      in (\<lambda>code. if code \<in> codes then Some (language_url code remainder) else None))"

definition well_formed_languages :: "Settings \<Rightarrow> bool" where
  \<comment> \<open>a language code is not empty and holds no slash\<close>
  "well_formed_languages settings =
     list_all (\<lambda>code. code \<noteq> [] \<and> CHR ''/'' \<notin> set code) (map fst (LANGUAGES settings))"

subsection \<open>The home page as the specification words it\<close>

definition item_precedes :: "MenuItem \<Rightarrow> MenuItem \<Rightarrow> bool" where
  \<comment> \<open>\<open>is_signature\<close> descending, then \<open>name_en\<close> ascending\<close>
  "item_precedes a b =
     ((is_signature a \<and> \<not> is_signature b)
      \<or> (is_signature a = is_signature b \<and> name_en a \<le> name_en b))"

definition attached_to :: "MenuCategory \<Rightarrow> MenuItem \<Rightarrow> bool" where
  \<comment> \<open>the item refers to the category\<close>
  "attached_to c i = (MenuCategory.pk c = Some (category i))"

definition spec_signature_items :: "(MenuCategory \<times> MenuItem list) list \<Rightarrow> MenuItem list" where
  \<comment> \<open>the attached items of the fetched categories, category by category, of which the
      signature items are kept and at most the first four taken\<close>
  "spec_signature_items fetched = take 4 (filter is_signature (concat (map snd fetched)))"

definition featured :: "state \<Rightarrow> MenuItem list" where
  \<comment> \<open>the available signature items of the active categories, as rows of the table\<close>
  "featured st =
     filter (\<lambda>i. is_available i \<and> is_signature i
                 \<and> list_ex (\<lambda>c. is_active c \<and> attached_to c i) (menu_categories st))
       (menu_items st)"

subsection \<open>A menu\<close>

definition tea :: MenuCategory where
  "tea = coffee\<lparr>MenuCategory.pk := Some 2, title_en := ''Tea'', display_order := 0\<rparr>"

definition juice :: MenuCategory where
  "juice = coffee\<lparr>MenuCategory.pk := Some 3, title_en := ''Juice'', display_order := 2,
                  is_active := False\<rparr>"

definition dish :: "nat \<Rightarrow> nat \<Rightarrow> string \<Rightarrow> bool \<Rightarrow> bool \<Rightarrow> MenuItem" where
  "dish k c name signature available =
     latte\<lparr>MenuItem.pk := Some k, category := c, name_en := name, slug := slugify_ascii name,
           is_signature := signature, is_available := available\<rparr>"

definition menu_state :: state where
  \<comment> \<open>two active categories and an inactive one; six available signature items in the
      active categories, an unavailable one, and one in the inactive category\<close>
  "menu_state =
     state0\<lparr>menu_categories := [coffee, tea, juice],
            menu_items :=
              [dish 1 1 ''Mocha'' True True, dish 2 1 ''Espresso'' True True,
               dish 3 1 ''Americano'' False True, dish 4 1 ''Latte'' True True,
               dish 5 2 ''Chai'' True True, dish 6 2 ''Black Tea'' False True,
               dish 7 2 ''Matcha'' True True, dish 8 2 ''Oolong'' True False,
               dish 9 3 ''Orange'' True True, dish 10 1 ''Cortado'' True True]\<rparr>"

section \<open>Verified properties\<close>

subsection \<open>Python string operations\<close>

lemma split_nonempty: "split c s \<noteq> []"
  by (induction s) (auto split: list.splits)

lemma hd_split: "hd (split c s) = takeWhile (\<lambda>x. x \<noteq> c) s"
  using split_nonempty [of c] by (induction s) (auto split: list.splits)

subsection \<open>Translation fallback\<close>

text \<open>
  C5. For every translatable entity and every field prefix, \<open>translate\<close> returns the
  value of the field \<open>{prefix}_{lang}\<close>, where \<open>lang\<close> is the primary subtag of the active
  language (\<open>en\<close> when no language is active); when that field is absent or its value is
  empty, it returns the value of \<open>{prefix}_en\<close> instead (the empty string when that
  field is absent too).
\<close>

theorem translate_fallback:
  "(\<forall>v. self (field_prefix @ ''_'' @ active_lang get_language) = Some v \<and> v \<noteq> []
        \<longrightarrow> translate self get_language field_prefix = v)
   \<and> (self (field_prefix @ ''_'' @ active_lang get_language) = None
        \<or> self (field_prefix @ ''_'' @ active_lang get_language) = Some []
      \<longrightarrow> (\<forall>w. self (field_prefix @ ''_en'') = Some w
                 \<longrightarrow> translate self get_language field_prefix = w)
          \<and> (self (field_prefix @ ''_en'') = None
                 \<longrightarrow> translate self get_language field_prefix = []))"
  by (auto simp: translate_def active_lang_def primary_subtag_def hd_split Let_def
           split: option.splits)

text \<open>
  The category with \<open>title_en = "Coffee"\<close> and \<open>title_fa = ""\<close> is titled \<open>Coffee\<close> under
  the active languages \<open>fa\<close>, \<open>en\<close> and \<open>en-US\<close>, and when no language is active.
\<close>

theorem translate_fallback_witness:
  "translate (MenuCategory_getattr coffee) (Some ''fa'') ''title'' = ''Coffee''
   \<and> translate (MenuCategory_getattr coffee) (Some ''en'') ''title'' = ''Coffee''
   \<and> translate (MenuCategory_getattr coffee) (Some ''en-US'') ''title'' = ''Coffee''
   \<and> translate (MenuCategory_getattr coffee) None ''title'' = ''Coffee''"
  using translate_fallback [of "MenuCategory_getattr coffee" "''title''" "Some ''fa''"]
        translate_fallback [of "MenuCategory_getattr coffee" "''title''" "Some ''en''"]
        translate_fallback [of "MenuCategory_getattr coffee" "''title''" "Some ''en-US''"]
        translate_fallback [of "MenuCategory_getattr coffee" "''title''" "None"]
  by (simp add: MenuCategory_getattr_def coffee_def active_lang_def primary_subtag_def)

subsection \<open>Saving a menu item\<close>

lemma slugify_latte: "slugify_ascii ''Iced Latte'' = ''iced-latte''"
  by code_simp

lemma Model_save_obj:
  "Model_save get_pk set_pk rows obj = (obj', rows') \<Longrightarrow>
     obj' \<in> set rows'
     \<and> (obj' = obj \<or> (get_pk obj = None \<and> obj' = set_pk (fresh_pk (map get_pk rows)) obj))"
  by (auto simp: Model_save_def Let_def split: option.splits if_splits)

lemma MenuItem_Model_save_slug:
  assumes "MenuItem_Model_save st obj = Inr (self', st')"
  shows "slug self' = slug obj \<and> self' \<in> set (menu_items st')"
proof -
  let ?obj = "obj\<lparr>MenuItem.updated_at := now st\<rparr>"
  obtain o' rows' where ms:
    "Model_save MenuItem.pk (\<lambda>k r. r\<lparr>MenuItem.pk := Some k\<rparr>) (menu_items st) ?obj = (o', rows')"
    by (cases "Model_save MenuItem.pk (\<lambda>k r. r\<lparr>MenuItem.pk := Some k\<rparr>) (menu_items st) ?obj")
  with assms have eq: "self' = o'" "st' = st\<lparr>menu_items := rows'\<rparr>"
    by (auto simp: MenuItem_Model_save_def Let_def split: if_splits)
  from Model_save_obj [OF ms] have "o' \<in> set rows'" and "slug o' = slug obj"
    by auto
  with eq show ?thesis by simp
qed

lemma MenuItem_save_slug:
  assumes "MenuItem_save slugify st self = Inr (self', st')"
  shows "slug self' = (if slug self = [] then slugify (name_en self) else slug self)"
    and "self' \<in> set (menu_items st')"
  using MenuItem_Model_save_slug [of st "MenuItem_assign_slug slugify self" self' st'] assms
  by (auto simp: MenuItem_save_def MenuItem_assign_slug_def)

lemma saves_keep_slug:
  "slug self \<noteq> [] \<Longrightarrow> list_all (\<lambda>edit. \<forall>i. slug (edit i) = slug i) edits \<Longrightarrow>
   saves slugify st self edits = Inr (self', st') \<Longrightarrow> slug self' = slug self"
proof (induction edits arbitrary: st self)
  case Nil
  then show ?case by simp
next
  case (Cons edit edits)
  from Cons.prems(3) obtain s1 st1 where
    step: "MenuItem_save slugify st (edit self) = Inr (s1, st1)"
    and rest: "saves slugify st1 s1 edits = Inr (self', st')"
    by (auto split: sum.splits)
  from Cons.prems(2) have keep: "slug (edit self) = slug self" by simp
  with Cons.prems(1) MenuItem_save_slug(1) [OF step] have s1: "slug s1 = slug self" by simp
  with Cons.prems(1) have "slug s1 \<noteq> []" by simp
  from Cons.IH [OF this _ rest] Cons.prems(2) s1 show ?case by simp
qed

lemma save_latte: "MenuItem_save slugify_ascii state0 latte = Inr (saved_latte, state1)"
  by (simp add: MenuItem_save_def MenuItem_assign_slug_def MenuItem_Model_save_def Model_save_def
        fresh_pk_def saved_latte_def state1_def latte_def state0_def coffee_def slugify_latte
        Let_def)

lemma resave_latte:
  "saves slugify_ascii state1 saved_latte [rename_item] = Inr (rename_item saved_latte, state2)"
  by (simp add: MenuItem_save_def MenuItem_assign_slug_def MenuItem_Model_save_def Model_save_def
        rename_item_def saved_latte_def state1_def state2_def latte_def state0_def coffee_def
        Let_def)

text \<open>
  C6. Saving a menu item whose slug is blank sets the slug to the slugification of
  \<open>name_en\<close>, on the instance and on the stored row; a slug that is not empty is left as
  it is by the save, and by every later save in a run of saves whose edits do not
  themselves assign the slug.
\<close>

theorem slug_assigned_once:
  "(slug self = [] \<longrightarrow> slug (MenuItem_assign_slug slugify self) = slugify (name_en self))
   \<and> (slug self \<noteq> [] \<longrightarrow> MenuItem_assign_slug slugify self = self)
   \<and> (\<forall>self' st'. MenuItem_save slugify st self = Inr (self', st') \<longrightarrow>
         self' \<in> set (menu_items st')
         \<and> (slug self = [] \<longrightarrow> slug self' = slugify (name_en self))
         \<and> (slug self \<noteq> [] \<longrightarrow> slug self' = slug self))
   \<and> (\<forall>edits self' st'.
         slug self \<noteq> [] \<and> list_all (\<lambda>edit. \<forall>i. slug (edit i) = slug i) edits
         \<and> saves slugify st self edits = Inr (self', st')
         \<longrightarrow> slug self' = slug self)"
proof (intro conjI allI impI)
  fix self' st'
  assume "MenuItem_save slugify st self = Inr (self', st')"
  note s = MenuItem_save_slug [OF this]
  show "self' \<in> set (menu_items st')" by (rule s(2))
  { assume "slug self = []" with s(1) show "slug self' = slugify (name_en self)" by simp }
  { assume "slug self \<noteq> []" with s(1) show "slug self' = slug self" by simp }
next
  fix edits self' st'
  assume "slug self \<noteq> [] \<and> list_all (\<lambda>edit. \<forall>i. slug (edit i) = slug i) edits
         \<and> saves slugify st self edits = Inr (self', st')"
  then show "slug self' = slug self" using saves_keep_slug by blast
qed (simp_all add: MenuItem_assign_slug_def)

text \<open>
  The item named \<open>Iced Latte\<close> with a blank slug is stored with the slug \<open>iced-latte\<close>;
  renaming it and saving it again leaves the slug as it was.
\<close>

theorem slug_assigned_once_witness:
  "slug (MenuItem_assign_slug slugify_ascii latte) = ''iced-latte''
   \<and> MenuItem_save slugify_ascii state0 latte = Inr (saved_latte, state1)
   \<and> saved_latte \<in> set (menu_items state1)
   \<and> slug saved_latte = ''iced-latte''
   \<and> MenuItem_assign_slug slugify_ascii saved_latte = saved_latte
   \<and> saves slugify_ascii state1 saved_latte [rename_item] = Inr (rename_item saved_latte, state2)
   \<and> slug (rename_item saved_latte) = ''iced-latte''"
proof -
  have blank: "slug latte = []" and name: "name_en latte = ''Iced Latte''"
    by (simp_all add: latte_def)
  have set: "slug saved_latte \<noteq> []"
    by (simp add: saved_latte_def)
  have keep: "list_all (\<lambda>edit. \<forall>i. slug (edit i) = slug i) [rename_item]"
    by (simp add: rename_item_def)
  note first = slug_assigned_once [of latte slugify_ascii state0]
  note later = slug_assigned_once [of saved_latte slugify_ascii state1]
  from first blank name have "slug (MenuItem_assign_slug slugify_ascii latte) = ''iced-latte''"
    by (simp add: slugify_latte)
  moreover from first blank name save_latte
  have "saved_latte \<in> set (menu_items state1) \<and> slug saved_latte = ''iced-latte''"
    by (simp add: slugify_latte)
  moreover from later set have "MenuItem_assign_slug slugify_ascii saved_latte = saved_latte"
    by blast
  moreover from later set keep resave_latte
  have "slug (rename_item saved_latte) = slug saved_latte"
    by blast
  ultimately show ?thesis
    using save_latte resave_latte by simp
qed

subsection \<open>Validation\<close>

lemma run_price_validators:
  "run_validators price_validators (Some p) =
     (if p < 0 then Inl (ValidationError [''min_value'']) else Inr ())"
  by (simp add: run_validators_def price_validators_def List.map_filter_simps)

lemma run_rating_validators:
  "run_validators rating_validators v =
     (case v of
        None \<Rightarrow> Inr ()
      | Some r \<Rightarrow>
          if r < 0 then Inl (ValidationError [''min_value''])
          else if 5 < r then Inl (ValidationError [''max_value''])
          else Inr ())"
  by (simp add: run_validators_def rating_validators_def List.map_filter_simps
        split: option.splits)

lemma MenuItem_Model_save_isl:
  "isl (MenuItem_Model_save st obj) \<longleftrightarrow>
     Some (category obj) \<notin> set (map MenuCategory.pk (menu_categories st))
     \<or> list_ex (\<lambda>r. slug r = slug obj \<and> MenuItem.pk r \<noteq> MenuItem.pk obj) (menu_items st)"
  by (simp add: MenuItem_Model_save_def Let_def split: prod.splits)

lemma MenuItem_save_no_validation:
  "MenuItem_save slugify st self \<noteq> Inl (ValidationError errs)"
  by (simp add: MenuItem_save_def MenuItem_Model_save_def Let_def split: prod.splits)

text \<open>
  \<open>MenuItem.save\<close> runs no validator: an item priced at \<open>-1.00\<close> is saved, and the table
  that held no item holds it afterwards.
\<close>

theorem save_skips_validation_counterexample:
  "price negative_item < 0
   \<and> menu_items state0 = []
   \<and> MenuItem_save slugify_ascii state0 negative_item =
       Inr (negative_item\<lparr>MenuItem.pk := Some 1, slug := ''iced-latte''\<rparr>,
            state0\<lparr>menu_items := [negative_item\<lparr>MenuItem.pk := Some 1, slug := ''iced-latte''\<rparr>]\<rparr>)"
  by (simp add: MenuItem_save_def MenuItem_assign_slug_def MenuItem_Model_save_def Model_save_def
        fresh_pk_def negative_item_def latte_def state0_def coffee_def slugify_latte Let_def)

text \<open>
  C1, as amended. The validators declared on \<open>price\<close> and \<open>rating\<close> fail with a Validation
  error when the price is below \<open>0.00\<close>, and when the rating is set and outside
  \<open>[0.0, 5.0]\<close>; a price of at least \<open>0.00\<close>, and a rating that is unset or within
  \<open>[0.0, 5.0]\<close> (so a rating of \<open>5.0\<close>), pass them. \<open>MenuItem.save\<close> runs none of them: it
  never fails with a Validation error, and whether it writes does not depend on the price
  or the rating of the item.
\<close>

theorem declared_validators_reject:
  "(price self < 0 \<longrightarrow>
      (\<exists>errs. run_validators price_validators (Some (price self)) = Inl (ValidationError errs)))
   \<and> (\<forall>r. rating self = Some r \<and> (r < 0 \<or> 5 < r) \<longrightarrow>
         (\<exists>errs. run_validators rating_validators (rating self) = Inl (ValidationError errs)))
   \<and> (0 \<le> price self \<longrightarrow> run_validators price_validators (Some (price self)) = Inr ())
   \<and> (rating self = None \<or> (\<exists>r. rating self = Some r \<and> 0 \<le> r \<and> r \<le> 5) \<longrightarrow>
         run_validators rating_validators (rating self) = Inr ())
   \<and> (\<forall>errs. MenuItem_save slugify st self \<noteq> Inl (ValidationError errs))
   \<and> (\<forall>p r. isl (MenuItem_save slugify st (self\<lparr>price := p, rating := r\<rparr>))
              = isl (MenuItem_save slugify st self))"
proof (intro conjI allI impI)
  assume "price self < 0"
  then show "\<exists>errs. run_validators price_validators (Some (price self)) = Inl (ValidationError errs)"
    by (simp add: run_price_validators)
next
  fix r
  assume "rating self = Some r \<and> (r < 0 \<or> 5 < r)"
  then show "\<exists>errs. run_validators rating_validators (rating self) = Inl (ValidationError errs)"
    by (auto simp: run_rating_validators)
next
  assume "0 \<le> price self"
  then show "run_validators price_validators (Some (price self)) = Inr ()"
    by (simp add: run_price_validators)
next
  assume "rating self = None \<or> (\<exists>r. rating self = Some r \<and> 0 \<le> r \<and> r \<le> 5)"
  then show "run_validators rating_validators (rating self) = Inr ()"
    by (auto simp: run_rating_validators)
next
  fix errs
  show "MenuItem_save slugify st self \<noteq> Inl (ValidationError errs)"
    by (rule MenuItem_save_no_validation)
next
  fix p r
  show "isl (MenuItem_save slugify st (self\<lparr>price := p, rating := r\<rparr>))
          = isl (MenuItem_save slugify st self)"
    by (simp add: MenuItem_save_def MenuItem_Model_save_isl MenuItem_assign_slug_def)
qed

text \<open>
  A price of \<open>-1.00\<close> and a rating of \<open>5.1\<close> are rejected by the validators, and the item
  rated \<open>5.0\<close> and priced \<open>4.50\<close> passes them; the save of that item succeeds, and so does
  the save of the same item priced \<open>-1.00\<close> or rated \<open>5.1\<close>.
\<close>

theorem declared_validators_reject_witness:
  "isl (run_validators price_validators (Some (price negative_item)))
   \<and> isl (run_validators rating_validators (rating overrated_item))
   \<and> run_validators price_validators (Some (price latte)) = Inr ()
   \<and> run_validators rating_validators (rating latte) = Inr ()
   \<and> \<not> isl (MenuItem_save slugify_ascii state0 latte)
   \<and> \<not> isl (MenuItem_save slugify_ascii state0 (latte\<lparr>price := - 1.00, rating := Some 5.0\<rparr>))
   \<and> \<not> isl (MenuItem_save slugify_ascii state0 (latte\<lparr>price := 4.50, rating := Some 5.1\<rparr>))"
proof -
  have neg: "price negative_item < 0"
    by (simp add: negative_item_def latte_def)
  have over: "rating overrated_item = Some 5.1 \<and> ((5.1::rat) < 0 \<or> 5 < (5.1::rat))"
    by (simp add: overrated_item_def latte_def)
  have ok: "0 \<le> price latte" and five: "\<exists>r. rating latte = Some r \<and> 0 \<le> r \<and> r \<le> 5"
    by (simp_all add: latte_def)
  have saved: "\<not> isl (MenuItem_save slugify_ascii state0 latte)"
    by (simp add: save_latte)
  from neg declared_validators_reject [of negative_item slugify_ascii state0]
  have "isl (run_validators price_validators (Some (price negative_item)))" by auto
  moreover from over declared_validators_reject [of overrated_item slugify_ascii state0]
  have "isl (run_validators rating_validators (rating overrated_item))" by fastforce
  moreover from ok five declared_validators_reject [of latte slugify_ascii state0]
  have "run_validators price_validators (Some (price latte)) = Inr ()
        \<and> run_validators rating_validators (rating latte) = Inr ()"
    by blast
  moreover from saved declared_validators_reject [of latte slugify_ascii state0]
  have "\<not> isl (MenuItem_save slugify_ascii state0 (latte\<lparr>price := - 1.00, rating := Some 5.0\<rparr>))
        \<and> \<not> isl (MenuItem_save slugify_ascii state0 (latte\<lparr>price := 4.50, rating := Some 5.1\<rparr>))"
    by blast
  ultimately show ?thesis using saved by blast
qed

subsection \<open>Cache invalidation\<close>

lemma MenuItem_Model_save_cache:
  "MenuItem_Model_save st obj = Inr (self', st') \<Longrightarrow> cache st' = cache st"
  by (auto simp: MenuItem_Model_save_def Let_def split: if_splits prod.splits)

text \<open>
  C7. A save of the settings record, and a delete of it that succeeds, leave no cache
  entry under the key \<open>menu.site_settings\<close>. Saving or deleting a category or a menu
  item leaves the cache as it was. (A delete of an instance that was never saved raises
  before anything is deleted.)
\<close>

theorem cache_invalidation_frame:
  "cache (snd (SiteSetting_save st s)) SITE_SETTINGS_CACHE_KEY = None
   \<and> (\<forall>st'. SiteSetting_delete st s = Inr st' \<longrightarrow> cache st' SITE_SETTINGS_CACHE_KEY = None)
   \<and> cache (snd (MenuCategory_save st c)) = cache st
   \<and> (\<forall>st'. MenuCategory_delete st c = Inr st' \<longrightarrow> cache st' = cache st)
   \<and> (\<forall>i' st'. MenuItem_save slugify st i = Inr (i', st') \<longrightarrow> cache st' = cache st)
   \<and> (\<forall>st'. MenuItem_delete st i = Inr st' \<longrightarrow> cache st' = cache st)"
proof (intro conjI allI impI)
  show "cache (snd (SiteSetting_save st s)) SITE_SETTINGS_CACHE_KEY = None"
    by (simp add: SiteSetting_save_def cache_delete_def Let_def split: prod.splits)
  show "cache (snd (MenuCategory_save st c)) = cache st"
    by (simp add: MenuCategory_save_def Let_def split: prod.splits)
next
  fix st' assume "SiteSetting_delete st s = Inr st'"
  then show "cache st' SITE_SETTINGS_CACHE_KEY = None"
    by (auto simp: SiteSetting_delete_def cache_delete_def Let_def split: option.splits)
next
  fix st' assume "MenuCategory_delete st c = Inr st'"
  then show "cache st' = cache st"
    by (auto simp: MenuCategory_delete_def split: option.splits)
next
  fix i' st' assume "MenuItem_save slugify st i = Inr (i', st')"
  then show "cache st' = cache st"
    by (simp add: MenuItem_save_def MenuItem_Model_save_cache)
next
  fix st' assume "MenuItem_delete st i = Inr st'"
  then show "cache st' = cache st"
    by (auto simp: MenuItem_delete_def split: option.splits)
qed

lemma delete_cafe_settings:
  "SiteSetting_delete cached_state cafe_settings =
     Inr (cached_state\<lparr>site_settings := [],
            cache := [''views.decorators.cache.cache_page'' \<mapsto>
                        \<lparr> cached_value = cafe_settings, expires_at = 1200 \<rparr>]\<rparr>)"
  by (auto simp: SiteSetting_delete_def cached_state_def cafe_settings_def SiteSetting_new_def
       cache_delete_def SITE_SETTINGS_CACHE_KEY_def state0_def Let_def fun_eq_iff)

lemma save_latte_cached:
  "MenuItem_save slugify_ascii cached_state latte =
     Inr (saved_latte, cached_state\<lparr>menu_items := [saved_latte]\<rparr>)"
  by (simp add: MenuItem_save_def MenuItem_assign_slug_def MenuItem_Model_save_def Model_save_def
        fresh_pk_def saved_latte_def cached_state_def latte_def state0_def coffee_def
        slugify_latte Let_def)

lemma delete_coffee:
  "MenuCategory_delete cached_state coffee = Inr (cached_state\<lparr>menu_categories := []\<rparr>)"
  by (simp add: MenuCategory_delete_def cached_state_def state0_def coffee_def)

lemma delete_saved_latte:
  "MenuItem_delete (cached_state\<lparr>menu_items := [saved_latte]\<rparr>) saved_latte = Inr cached_state"
  by (simp add: MenuItem_delete_def cached_state_def state0_def saved_latte_def)

text \<open>
  In a state that caches the settings and a page, every settings operation removes the
  settings entry, and the category and item operations leave both entries in place.
\<close>

theorem cache_invalidation_frame_witness:
  "cache cached_state SITE_SETTINGS_CACHE_KEY \<noteq> None
   \<and> cache (snd (SiteSetting_save cached_state cafe_settings)) SITE_SETTINGS_CACHE_KEY = None
   \<and> \<not> isl (SiteSetting_delete cached_state cafe_settings)
   \<and> cache (projr (SiteSetting_delete cached_state cafe_settings)) SITE_SETTINGS_CACHE_KEY = None
   \<and> cache (snd (MenuCategory_save cached_state coffee)) = cache cached_state
   \<and> cache (projr (MenuCategory_delete cached_state coffee)) = cache cached_state
   \<and> cache (snd (projr (MenuItem_save slugify_ascii cached_state latte))) = cache cached_state
   \<and> cache (projr (MenuItem_delete (cached_state\<lparr>menu_items := [saved_latte]\<rparr>) saved_latte))
       = cache cached_state"
proof -
  note frame = cache_invalidation_frame [of cached_state cafe_settings coffee slugify_ascii latte]
  note frame' =
    cache_invalidation_frame
      [of "cached_state\<lparr>menu_items := [saved_latte]\<rparr>" cafe_settings coffee slugify_ascii saved_latte]
  have before: "cache cached_state SITE_SETTINGS_CACHE_KEY \<noteq> None"
    by (simp add: cached_state_def SITE_SETTINGS_CACHE_KEY_def)
  have "cache (projr (SiteSetting_delete cached_state cafe_settings)) SITE_SETTINGS_CACHE_KEY = None"
    using frame delete_cafe_settings by (metis sum.sel(2))
  moreover have "cache (projr (MenuCategory_delete cached_state coffee)) = cache cached_state"
    using frame delete_coffee by (metis sum.sel(2))
  moreover have "cache (snd (projr (MenuItem_save slugify_ascii cached_state latte))) = cache cached_state"
    using frame save_latte_cached by (metis sum.sel(2) snd_conv)
  moreover have
    "cache (projr (MenuItem_delete (cached_state\<lparr>menu_items := [saved_latte]\<rparr>) saved_latte))
       = cache (cached_state\<lparr>menu_items := [saved_latte]\<rparr>)"
    using frame' delete_saved_latte by (metis sum.sel(2))
  ultimately show ?thesis
    using frame before delete_cafe_settings by simp
qed

subsection \<open>The add permission of the settings administration\<close>

text \<open>
  With no settings record stored, a user who does not hold the add permission is still
  refused the add action.
\<close>

theorem add_needs_permission_counterexample:
  "site_settings state0 = [] \<and> \<not> has_add_permission state0 staff_request"
  by (simp add: has_add_permission_def ModelAdmin_has_add_permission_def state0_def
        staff_request_def)

text \<open>
  C8, as amended. The add action for the settings record is available exactly when no
  settings record exists and the requesting user holds the permission
  \<open>menu.add_sitesetting\<close>; once a record exists it is unavailable for every request.
\<close>

theorem has_add_permission_iff:
  "has_add_permission st request \<longleftrightarrow>
     site_settings st = [] \<and> has_perm request ''menu.add_sitesetting''"
  by (simp add: has_add_permission_def ModelAdmin_has_add_permission_def)

theorem has_add_permission_iff_witness:
  "has_add_permission state0 superuser_request
   \<and> \<not> has_add_permission cached_state superuser_request
   \<and> \<not> has_add_permission cached_state staff_request"
  using has_add_permission_iff [of state0 superuser_request]
        has_add_permission_iff [of cached_state superuser_request]
        has_add_permission_iff [of cached_state staff_request]
  by (simp add: state0_def cached_state_def superuser_request_def staff_request_def)

subsection \<open>Global context on a cache miss\<close>

lemma objects_first_None: "objects_first rows = None \<longleftrightarrow> rows = []"
proof -
  have "sort_key SiteSetting.pk rows = [] \<longleftrightarrow> rows = []"
    by (metis length_sort list.size(3) length_0_conv)
  then show ?thesis
    by (cases "sort_key SiteSetting.pk rows") (auto simp: objects_first_def)
qed

lemma objects_first_Some:
  assumes "objects_first rows = Some r"
  shows "r \<in> set rows" and "list_all (\<lambda>x. SiteSetting.pk r \<le> SiteSetting.pk x) rows"
proof -
  from assms obtain rest where s: "sort_key SiteSetting.pk rows = r # rest"
    by (auto simp: objects_first_def split: list.splits)
  have "set (sort_key SiteSetting.pk rows) = set rows" by simp
  with s have mem: "set rows = insert r (set rest)" by simp
  then show "r \<in> set rows" by simp
  have "sorted (map SiteSetting.pk (sort_key SiteSetting.pk rows))" by (rule sorted_sort_key)
  with s have "\<forall>x\<in>set rest. SiteSetting.pk r \<le> SiteSetting.pk x" by simp
  with mem show "list_all (\<lambda>x. SiteSetting.pk r \<le> SiteSetting.pk x) rows"
    by (simp add: list_all_iff)
qed

text \<open>
  C9. On a cache miss, \<open>global_settings\<close> returns the stored settings record of least
  primary key; when no record is stored it returns an unsaved instance with
  \<open>site_name_en = "Cafe Menu"\<close> and every other field at its default. The tables are left
  as they were, and the instance returned is cached under \<open>menu.site_settings\<close> with an
  expiry 300 seconds ahead: it is served until then and no longer.
\<close>

theorem global_settings_cache_miss:
  assumes miss: "cache_get (cache st) (now st) SITE_SETTINGS_CACHE_KEY = None"
  shows
    "(site_settings st = [] \<longrightarrow>
        ctx_site_settings (fst (global_settings settings st request)) =
          \<lparr> SiteSetting.pk = None, site_name_en = ''Cafe Menu'', site_name_fa = [],
            site_logo = None, site_favicon = None,
            hero_headline_en = [], hero_headline_fa = [],
            hero_subtitle_en = [], hero_subtitle_fa = [],
            contact_email = [], contact_phone = [], contact_whatsapp = [],
            address_en = [], address_fa = [],
            opening_hours = ''08:00 - 23:00'',
            footer_text_en = [], footer_text_fa = [],
            footer_links = [], social_links = [],
            seo_description_en = [], seo_description_fa = [] \<rparr>)
     \<and> (site_settings st \<noteq> [] \<longrightarrow>
          ctx_site_settings (fst (global_settings settings st request)) \<in> set (site_settings st)
          \<and> list_all (\<lambda>r. SiteSetting.pk (ctx_site_settings (fst (global_settings settings st request)))
                            \<le> SiteSetting.pk r) (site_settings st))
     \<and> snd (global_settings settings st request) =
         st\<lparr>cache := (cache st)(SITE_SETTINGS_CACHE_KEY \<mapsto>
               \<lparr> cached_value = ctx_site_settings (fst (global_settings settings st request)),
                 expires_at = now st + 300 \<rparr>)\<rparr>
     \<and> (\<forall>t. t < now st + 300 \<longrightarrow>
           cache_get (cache (snd (global_settings settings st request))) t SITE_SETTINGS_CACHE_KEY
             = Some (ctx_site_settings (fst (global_settings settings st request))))
     \<and> (\<forall>t. now st + 300 \<le> t \<longrightarrow>
           cache_get (cache (snd (global_settings settings st request))) t SITE_SETTINGS_CACHE_KEY
             = None)"
proof -
  let ?inst = "case objects_first (site_settings st) of
                 Some found \<Rightarrow> found | None \<Rightarrow> SiteSetting_new ''Cafe Menu''"
  have res: "global_settings settings st request =
     (\<lparr> ctx_site_settings = ?inst, ctx_language_urls = language_paths settings request \<rparr>,
      st\<lparr>cache := (cache st)(SITE_SETTINGS_CACHE_KEY \<mapsto>
            \<lparr> cached_value = ?inst, expires_at = now st + 300 \<rparr>)\<rparr>)"
    using miss by (simp add: global_settings_def cache_set_def Let_def)
  have empty: "?inst = SiteSetting_new ''Cafe Menu''" if "site_settings st = []"
    using that objects_first_None [of "site_settings st"] by simp
  have found: "?inst \<in> set (site_settings st)
      \<and> list_all (\<lambda>r. SiteSetting.pk ?inst \<le> SiteSetting.pk r) (site_settings st)"
    if "site_settings st \<noteq> []"
  proof -
    from that obtain r where r: "objects_first (site_settings st) = Some r"
      using objects_first_None [of "site_settings st"] by (cases "objects_first (site_settings st)") auto
    with objects_first_Some [OF r] show ?thesis by simp
  qed
  show ?thesis
    unfolding res
    using empty found
    by (auto simp: cache_get_def SiteSetting_new_def)
qed

text \<open>
  With no record and an empty cache at time 1000 the placeholder is returned and cached
  until 1300; with a stored record and an expired entry the record is returned.
\<close>

theorem global_settings_cache_miss_witness:
  "ctx_site_settings (fst (global_settings en_fa state0 staff_request)) = SiteSetting_new ''Cafe Menu''
   \<and> site_settings (snd (global_settings en_fa state0 staff_request)) = []
   \<and> cache (snd (global_settings en_fa state0 staff_request)) SITE_SETTINGS_CACHE_KEY =
       Some \<lparr> cached_value = SiteSetting_new ''Cafe Menu'', expires_at = 1300 \<rparr>
   \<and> cache_get (cache (snd (global_settings en_fa state0 staff_request))) 1299 SITE_SETTINGS_CACHE_KEY
       = Some (SiteSetting_new ''Cafe Menu'')
   \<and> cache_get (cache (snd (global_settings en_fa state0 staff_request))) 1300 SITE_SETTINGS_CACHE_KEY
       = None
   \<and> ctx_site_settings (fst (global_settings en_fa (cached_state\<lparr>now := 1200\<rparr>) staff_request))
       = cafe_settings"
proof -
  have miss0: "cache_get (cache state0) (now state0) SITE_SETTINGS_CACHE_KEY = None"
    by (simp add: cache_get_def state0_def)
  have miss1: "cache_get (cache (cached_state\<lparr>now := 1200\<rparr>)) (now (cached_state\<lparr>now := 1200\<rparr>))
                 SITE_SETTINGS_CACHE_KEY = None"
    by (simp add: cache_get_def cached_state_def state0_def SITE_SETTINGS_CACHE_KEY_def)
  note fresh = global_settings_cache_miss [OF miss0, of en_fa staff_request]
  note stale = global_settings_cache_miss [OF miss1, of en_fa staff_request]
  have none: "site_settings state0 = []" and t: "now state0 = 1000"
    by (simp_all add: state0_def)
  have one: "site_settings (cached_state\<lparr>now := 1200\<rparr>) = [cafe_settings]"
    by (simp add: cached_state_def)
  from fresh none
  have inst: "ctx_site_settings (fst (global_settings en_fa state0 staff_request))
                = SiteSetting_new ''Cafe Menu''"
    by (simp add: SiteSetting_new_def)
  from fresh have st': "snd (global_settings en_fa state0 staff_request) =
      state0\<lparr>cache := (cache state0)(SITE_SETTINGS_CACHE_KEY \<mapsto>
        \<lparr> cached_value = ctx_site_settings (fst (global_settings en_fa state0 staff_request)),
          expires_at = now state0 + 300 \<rparr>)\<rparr>"
    by blast
  from fresh have window:
    "\<forall>t. t < now state0 + 300 \<longrightarrow>
       cache_get (cache (snd (global_settings en_fa state0 staff_request))) t SITE_SETTINGS_CACHE_KEY
         = Some (ctx_site_settings (fst (global_settings en_fa state0 staff_request)))"
    by blast
  from fresh have expiry:
    "\<forall>t. now state0 + 300 \<le> t \<longrightarrow>
       cache_get (cache (snd (global_settings en_fa state0 staff_request))) t SITE_SETTINGS_CACHE_KEY
         = None"
    by blast
  from window t have hit:
    "cache_get (cache (snd (global_settings en_fa state0 staff_request))) 1299 SITE_SETTINGS_CACHE_KEY
       = Some (ctx_site_settings (fst (global_settings en_fa state0 staff_request)))"
    by simp
  from expiry t have gone:
    "cache_get (cache (snd (global_settings en_fa state0 staff_request))) 1300 SITE_SETTINGS_CACHE_KEY
       = None"
    by simp
  from stale have
    "site_settings (cached_state\<lparr>now := 1200\<rparr>) \<noteq> [] \<longrightarrow>
       ctx_site_settings (fst (global_settings en_fa (cached_state\<lparr>now := 1200\<rparr>) staff_request))
         \<in> set (site_settings (cached_state\<lparr>now := 1200\<rparr>))"
    by blast
  with one
  have "ctx_site_settings (fst (global_settings en_fa (cached_state\<lparr>now := 1200\<rparr>) staff_request))
          = cafe_settings"
    by simp
  moreover from st' have
    "site_settings (snd (global_settings en_fa state0 staff_request)) = []
     \<and> cache (snd (global_settings en_fa state0 staff_request)) SITE_SETTINGS_CACHE_KEY =
         Some \<lparr> cached_value = ctx_site_settings (fst (global_settings en_fa state0 staff_request)),
                expires_at = 1300 \<rparr>"
    by (simp add: none t)
  ultimately show ?thesis
    using inst hit gone by simp
qed

subsection \<open>Language URLs\<close>

lemma fold_urls:
  "fold (\<lambda>(code, _) urls. urls(code \<mapsto> g code)) langs m =
     (\<lambda>k. if k \<in> set (map fst langs) then Some (g k) else m k)"
  by (induction langs arbitrary: m) (auto simp: fun_eq_iff)

lemma split1_parts:
  assumes "trimmed \<noteq> []"
  shows "split1 CHR ''/'' trimmed \<noteq> []"
    and "hd (split1 CHR ''/'' trimmed) = first_segment trimmed"
    and "(if length (split1 CHR ''/'' trimmed) > 1 then split1 CHR ''/'' trimmed ! 1 else [])
           = rest_after_slash trimmed"
proof -
  show "split1 CHR ''/'' trimmed \<noteq> []"
    by (simp add: split1_def)
  show "hd (split1 CHR ''/'' trimmed) = first_segment trimmed"
  proof (cases "CHR ''/'' \<in> set trimmed")
    case True
    then show ?thesis by (simp add: split1_def first_segment_def)
  next
    case False
    then have tw: "takeWhile (\<lambda>c. c \<noteq> CHR ''/'') trimmed = trimmed"
      by auto
    show ?thesis
      unfolding split1_def first_segment_def tw using False by simp
  qed
  show "(if length (split1 CHR ''/'' trimmed) > 1 then split1 CHR ''/'' trimmed ! 1 else [])
           = rest_after_slash trimmed"
  proof (cases "CHR ''/'' \<in> set trimmed")
    case True
    then show ?thesis by (simp add: split1_def rest_after_slash_def drop_Suc)
  next
    case False
    then have dw: "dropWhile (\<lambda>c. c \<noteq> CHR ''/'') trimmed = []"
      by auto
    show ?thesis
      unfolding split1_def rest_after_slash_def dw using False by simp
  qed
qed

lemma remainder_eq:
  "(if (if trimmed \<noteq> [] then split1 CHR ''/'' trimmed else []) \<noteq> []
       \<and> hd (if trimmed \<noteq> [] then split1 CHR ''/'' trimmed else []) \<in> codes
    then (if length (if trimmed \<noteq> [] then split1 CHR ''/'' trimmed else []) > 1
          then (if trimmed \<noteq> [] then split1 CHR ''/'' trimmed else []) ! 1 else [])
    else trimmed)
   = (if first_segment trimmed \<in> codes then rest_after_slash trimmed else trimmed)"
proof (cases "trimmed = []")
  case True
  then show ?thesis by (simp add: first_segment_def rest_after_slash_def)
next
  case False
  note p = split1_parts [OF False]
  from False have "(if trimmed \<noteq> [] then split1 CHR ''/'' trimmed else []) = split1 CHR ''/'' trimmed"
    by simp
  then show ?thesis
    by (simp only: p if_True simp_thms)
qed

lemma lstrip_default: "lstrip CHR ''/'' (if p \<noteq> [] then p else ''/'') = lstrip CHR ''/'' p"
  by (simp add: lstrip_def)

lemma language_paths_eq:
  "language_paths settings request =
     spec_language_urls (lstrip CHR ''/'') settings (path_info request)"
proof -
  have "language_paths settings request =
     (\<lambda>k. if k \<in> set (map fst (LANGUAGES settings))
          then Some (language_url k
                 (strip CHR ''/''
                   (if first_segment (lstrip CHR ''/'' (path_info request))
                         \<in> set (map fst (LANGUAGES settings))
                    then rest_after_slash (lstrip CHR ''/'' (path_info request))
                    else lstrip CHR ''/'' (path_info request))))
          else None)"
    unfolding language_paths_def Let_def remainder_eq lstrip_default
    by (simp only: fold_urls [where g = "\<lambda>code. ''/'' @ code @ ''/'' @ (if r \<noteq> [] then r @ ''/'' else [])" for r])
       (auto simp: language_url_def fun_eq_iff)
  then show ?thesis
    by (simp add: spec_language_urls_def Let_def)
qed


lemma single_slash_agrees:
  "take 2 path \<noteq> ''//'' \<Longrightarrow> lstrip CHR ''/'' path = strip_one_slash path"
proof (cases path)
  case Nil
  then show ?thesis by (simp add: lstrip_def strip_one_slash_def)
next
  case (Cons c cs)
  assume "take 2 path \<noteq> ''//''"
  with Cons show ?thesis
    by (cases cs) (auto simp: lstrip_def strip_one_slash_def)
qed

text \<open>
  Read to the letter, the specification strips one leading slash. The source strips all
  of them: on the path \<open>//en/menu-item/\<close> it finds the language prefix where the wording
  of the specification does not.
\<close>

theorem single_slash_counterexample:
  "language_paths en_fa (staff_request\<lparr>path_info := ''//en/menu-item/''\<rparr>) ''fa''
     = Some ''/fa/menu-item/''
   \<and> spec_language_urls strip_one_slash en_fa ''//en/menu-item/'' ''fa''
     = Some ''/fa/en/menu-item/''"
  by (simp add: language_paths_def spec_language_urls_def strip_one_slash_def en_fa_def
        staff_request_def lstrip_def rstrip_def strip_def split1_def first_segment_def
        rest_after_slash_def language_url_def Let_def)

text \<open>
  C4, as amended. \<open>language_urls\<close> is computed by stripping every leading slash of the
  request path and splitting on the first remaining slash into first segment and rest;
  the remainder is the rest when the first segment is a configured language code and the
  whole trimmed path otherwise, stripped of leading and trailing slashes; each configured
  code is mapped to \<open>/{code}/{remainder}/\<close> when the remainder is not empty and to
  \<open>/{code}/\<close> otherwise. With the languages \<open>en\<close> and \<open>fa\<close>, the path
  \<open>/en/menu-item/\<close> yields \<open>/en/menu-item/\<close> and \<open>/fa/menu-item/\<close>, and the path \<open>/en/\<close>
  yields \<open>/en/\<close> and \<open>/fa/\<close>.
\<close>

theorem language_urls_computation:
  "language_paths settings request =
     spec_language_urls (lstrip CHR ''/'') settings (path_info request)
   \<and> language_paths en_fa (staff_request\<lparr>path_info := ''/en/menu-item/''\<rparr>)
       = [''en'' \<mapsto> ''/en/menu-item/'', ''fa'' \<mapsto> ''/fa/menu-item/'']
   \<and> language_paths en_fa (staff_request\<lparr>path_info := ''/en/''\<rparr>)
       = [''en'' \<mapsto> ''/en/'', ''fa'' \<mapsto> ''/fa/'']"
proof (intro conjI)
  show "language_paths settings request =
     spec_language_urls (lstrip CHR ''/'') settings (path_info request)"
    by (rule language_paths_eq)
  show "language_paths en_fa (staff_request\<lparr>path_info := ''/en/menu-item/''\<rparr>)
       = [''en'' \<mapsto> ''/en/menu-item/'', ''fa'' \<mapsto> ''/fa/menu-item/'']"
    by (simp add: language_paths_def en_fa_def staff_request_def lstrip_def rstrip_def strip_def
          split1_def Let_def)
  show "language_paths en_fa (staff_request\<lparr>path_info := ''/en/''\<rparr>)
       = [''en'' \<mapsto> ''/en/'', ''fa'' \<mapsto> ''/fa/'']"
    by (simp add: language_paths_def en_fa_def staff_request_def lstrip_def rstrip_def strip_def
          split1_def Let_def)
qed

subsection \<open>Language URLs do not depend on the language prefix\<close>

lemma rstrip_decomp: "\<exists>zs. w = rstrip c w @ zs"
proof -
  have "rev w = takeWhile (\<lambda>x. x = c) (rev w) @ dropWhile (\<lambda>x. x = c) (rev w)"
    by simp
  then have "rev (rev w) =
      rev (takeWhile (\<lambda>x. x = c) (rev w) @ dropWhile (\<lambda>x. x = c) (rev w))"
    by (rule arg_cong)
  then have "w = rev (dropWhile (\<lambda>x. x = c) (rev w)) @ rev (takeWhile (\<lambda>x. x = c) (rev w))"
    by (simp only: rev_append rev_rev_ident)
  then show ?thesis
    unfolding rstrip_def by (rule exI)
qed

lemma rstrip_last:
  assumes "rstrip c w \<noteq> []"
  shows "last (rstrip c w) \<noteq> c"
proof -
  let ?d = "dropWhile (\<lambda>x. x = c) (rev w)"
  from assms have ne: "?d \<noteq> []"
    by (simp add: rstrip_def)
  from hd_dropWhile [OF ne] have "hd ?d \<noteq> c" .
  moreover from ne have "last (rev ?d) = hd ?d"
    by (simp add: last_rev)
  ultimately show ?thesis
    by (simp add: rstrip_def)
qed

lemma lstrip_hd:
  assumes "lstrip c w \<noteq> []"
  shows "hd (lstrip c w) \<noteq> c"
proof -
  from assms have ne: "dropWhile (\<lambda>x. x = c) w \<noteq> []"
    by (simp add: lstrip_def)
  from hd_dropWhile [OF ne] show ?thesis
    by (simp add: lstrip_def)
qed

lemma strip_clean:
  "strip c x = [] \<or> (hd (strip c x) \<noteq> c \<and> last (strip c x) \<noteq> c)"
proof (cases "strip c x = []")
  case True
  then show ?thesis by simp
next
  case False
  then have ne: "rstrip c (lstrip c x) \<noteq> []" by (simp add: strip_def)
  obtain zs where decomp: "lstrip c x = rstrip c (lstrip c x) @ zs"
    using rstrip_decomp by blast
  from ne have "hd (rstrip c (lstrip c x) @ zs) = hd (rstrip c (lstrip c x))"
    by (rule hd_append2)
  with decomp have same: "hd (lstrip c x) = hd (rstrip c (lstrip c x))"
    by simp
  from ne decomp have "lstrip c x \<noteq> []"
    by (cases "lstrip c x") auto
  from lstrip_hd [OF this] same have "hd (strip c x) \<noteq> c"
    by (simp add: strip_def)
  moreover from rstrip_last [OF ne] have "last (strip c x) \<noteq> c"
    by (simp add: strip_def)
  ultimately show ?thesis by simp
qed


lemma strip_snoc:
  assumes "y = [] \<or> (hd y \<noteq> c \<and> last y \<noteq> c)"
  shows "strip c (y @ [c]) = y"
proof (cases "y = []")
  case True
  then show ?thesis by (simp add: strip_def lstrip_def rstrip_def)
next
  case False
  with assms have h: "hd y \<noteq> c" and l: "last y \<noteq> c" by auto
  from False h have "lstrip c (y @ [c]) = y @ [c]"
    by (cases y) (simp_all add: lstrip_def)
  moreover have "rstrip c (y @ [c]) = y"
  proof -
    from False obtain ys z where y: "y = ys @ [z]"
      by (cases y rule: rev_cases) auto
    with l have "z \<noteq> c" by simp
    with y show ?thesis by (simp add: rstrip_def)
  qed
  ultimately show ?thesis by (simp add: strip_def)
qed

lemma prefixed_path:
  assumes "code \<noteq> []" and "CHR ''/'' \<notin> set code"
    and "code \<in> set (map fst (LANGUAGES settings))"
  shows "spec_language_urls (lstrip CHR ''/'') settings (''/'' @ code @ ''/'' @ s) =
     (\<lambda>k. if k \<in> set (map fst (LANGUAGES settings))
          then Some (language_url k (strip CHR ''/'' s)) else None)"
proof -
  from assms(1,2) have trimmed: "lstrip CHR ''/'' (''/'' @ code @ ''/'' @ s) = code @ ''/'' @ s"
    by (cases code) (auto simp: lstrip_def)
  from assms(2) have noslash: "\<forall>x\<in>set code. x \<noteq> CHR ''/''"
    by auto
  then have seg: "first_segment (code @ ''/'' @ s) = code"
    by (simp add: first_segment_def)
  from noslash have rest: "rest_after_slash (code @ ''/'' @ s) = s"
    by (simp add: rest_after_slash_def)
  show ?thesis
    unfolding spec_language_urls_def Let_def trimmed seg rest
    using assms(3) by simp
qed


lemma language_paths_prefixed:
  assumes "well_formed_languages settings" and "code \<in> set (map fst (LANGUAGES settings))"
  shows "language_paths settings (request\<lparr>path_info := ''/'' @ code @ ''/'' @ s\<rparr>) =
     (\<lambda>k. if k \<in> set (map fst (LANGUAGES settings))
          then Some (language_url k (strip CHR ''/'' s)) else None)"
proof -
  from assms have "code \<noteq> []" and "CHR ''/'' \<notin> set code"
    by (auto simp: well_formed_languages_def list_all_iff)
  from prefixed_path [OF this assms(2)] show ?thesis
    by (simp add: language_paths_eq)
qed

text \<open>
  C10. With language codes that are not empty and hold no slash, the paths
  \<open>/{c1}/{r}/\<close> and \<open>/{c2}/{r}/\<close> of two configured codes yield the same map of language
  URLs, for every remainder \<open>r\<close>; and every URL of the map of a request yields that same
  map when it is the request path.
\<close>

theorem language_urls_prefix_invariant:
  assumes wf: "well_formed_languages settings"
  shows
    "(\<forall>c1 c2 r.
        c1 \<in> set (map fst (LANGUAGES settings)) \<and> c2 \<in> set (map fst (LANGUAGES settings))
        \<longrightarrow> language_paths settings (request\<lparr>path_info := ''/'' @ c1 @ ''/'' @ r @ ''/''\<rparr>)
              = language_paths settings (request\<lparr>path_info := ''/'' @ c2 @ ''/'' @ r @ ''/''\<rparr>))
     \<and> (\<forall>code url.
          language_paths settings request code = Some url
          \<longrightarrow> language_paths settings (request\<lparr>path_info := url\<rparr>)
                = language_paths settings request)"
proof (intro conjI allI impI)
  fix c1 c2 r
  assume "c1 \<in> set (map fst (LANGUAGES settings)) \<and> c2 \<in> set (map fst (LANGUAGES settings))"
  then show "language_paths settings (request\<lparr>path_info := ''/'' @ c1 @ ''/'' @ r @ ''/''\<rparr>)
              = language_paths settings (request\<lparr>path_info := ''/'' @ c2 @ ''/'' @ r @ ''/''\<rparr>)"
    using language_paths_prefixed [OF wf, where request = request and s = "r @ ''/''"] by simp
next
  fix code url
  assume url: "language_paths settings request code = Some url"
  define trimmed where "trimmed = lstrip CHR ''/'' (path_info request)"
  define remainder where "remainder =
    strip CHR ''/'' (if first_segment trimmed \<in> set (map fst (LANGUAGES settings))
                     then rest_after_slash trimmed else trimmed)"
  have urls: "language_paths settings request =
      (\<lambda>k. if k \<in> set (map fst (LANGUAGES settings))
           then Some (language_url k remainder) else None)"
    unfolding language_paths_eq spec_language_urls_def Let_def remainder_def trimmed_def
    by (rule refl)
  with url have code: "code \<in> set (map fst (LANGUAGES settings))"
    and u: "url = language_url code remainder"
    by (auto split: if_splits)
  define s where "s = (if remainder \<noteq> [] then remainder @ ''/'' else [])"
  have shape: "url = ''/'' @ code @ ''/'' @ s"
    by (simp add: u language_url_def s_def)
  have clean: "remainder = [] \<or> (hd remainder \<noteq> CHR ''/'' \<and> last remainder \<noteq> CHR ''/'')"
    unfolding remainder_def by (rule strip_clean)
  have again: "strip CHR ''/'' s = remainder"
  proof (cases "remainder = []")
    case True
    then show ?thesis by (simp add: s_def strip_def lstrip_def rstrip_def)
  next
    case False
    then have "s = remainder @ [CHR ''/'']" by (simp add: s_def)
    with strip_snoc [OF clean] show ?thesis by simp
  qed
  from language_paths_prefixed [OF wf code, where request = request and s = s]
  have "language_paths settings (request\<lparr>path_info := url\<rparr>) =
     (\<lambda>k. if k \<in> set (map fst (LANGUAGES settings))
          then Some (language_url k (strip CHR ''/'' s)) else None)"
    by (simp add: shape)
  also have "\<dots> = language_paths settings request"
    unfolding again urls by (rule refl)
  finally show "language_paths settings (request\<lparr>path_info := url\<rparr>)
                  = language_paths settings request" .
qed

text \<open>
  With \<open>en\<close> and \<open>fa\<close> configured, the paths \<open>/en/menu-item/\<close> and \<open>/fa/menu-item/\<close> yield
  the same map, and the Persian URL of the first leads back to the map it came from.
\<close>

theorem language_urls_prefix_invariant_witness:
  "language_paths en_fa (staff_request\<lparr>path_info := ''/en/menu-item/''\<rparr>)
     = language_paths en_fa (staff_request\<lparr>path_info := ''/fa/menu-item/''\<rparr>)
   \<and> language_paths en_fa (staff_request\<lparr>path_info := ''/en/menu-item/''\<rparr>) ''fa''
     = Some ''/fa/menu-item/''
   \<and> language_paths en_fa (staff_request\<lparr>path_info := ''/fa/menu-item/''\<rparr>)
     = language_paths en_fa (staff_request\<lparr>path_info := ''/en/menu-item/''\<rparr>)"
proof -
  have wf: "well_formed_languages en_fa"
    by (simp add: well_formed_languages_def en_fa_def)
  have url: "language_paths en_fa (staff_request\<lparr>path_info := ''/en/menu-item/''\<rparr>) ''fa''
     = Some ''/fa/menu-item/''"
    by (simp add: language_paths_def en_fa_def staff_request_def lstrip_def rstrip_def strip_def
          split1_def Let_def)
  have codes: "''en'' \<in> set (map fst (LANGUAGES en_fa)) \<and> ''fa'' \<in> set (map fst (LANGUAGES en_fa))"
    by (simp add: en_fa_def)
  from language_urls_prefix_invariant [OF wf, of staff_request] codes
  have "language_paths en_fa (staff_request\<lparr>path_info := ''/'' @ ''en'' @ ''/'' @ ''menu-item'' @ ''/''\<rparr>)
     = language_paths en_fa (staff_request\<lparr>path_info := ''/'' @ ''fa'' @ ''/'' @ ''menu-item'' @ ''/''\<rparr>)"
    by blast
  then have same: "language_paths en_fa (staff_request\<lparr>path_info := ''/en/menu-item/''\<rparr>)
     = language_paths en_fa (staff_request\<lparr>path_info := ''/fa/menu-item/''\<rparr>)"
    by simp
  from language_urls_prefix_invariant
         [OF wf, of "staff_request\<lparr>path_info := ''/en/menu-item/''\<rparr>"] url
  have "language_paths en_fa (staff_request\<lparr>path_info := ''/en/menu-item/''\<rparr>\<lparr>path_info := ''/fa/menu-item/''\<rparr>)
     = language_paths en_fa (staff_request\<lparr>path_info := ''/en/menu-item/''\<rparr>)"
    by blast
  with same url show ?thesis by simp
qed

subsection \<open>Home page categories\<close>

lemma item_precedes_iff:
  "item_precedes a b \<longleftrightarrow> (\<not> is_signature a, name_en a) \<le> (\<not> is_signature b, name_en b)"
  by (auto simp: item_precedes_def less_eq_prod_def)

lemma categories_eq:
  "categories (get_context_data settings st request) =
     prefetch_items st (sort_key display_order (filter is_active (menu_categories st)))"
  by (simp add: get_context_data_def Let_def)

lemma map_fst_prefetch: "map fst (prefetch_items st cats) = cats"
  by (simp add: prefetch_items_def Let_def comp_def)

lemma prefetch_items_member:
  assumes "(c, items) \<in> set (prefetch_items st cats)"
  shows "c \<in> set cats"
    and "items = filter (attached_to c)
            (sort_key (\<lambda>i. (\<not> is_signature i, name_en i)) (filter is_available (menu_items st)))"
  using assms by (auto simp: prefetch_items_def Let_def attached_to_def [abs_def])

lemma attached_items:
  fixes st c
  defines "items \<equiv> filter (attached_to c)
            (sort_key (\<lambda>i. (\<not> is_signature i, name_en i)) (filter is_available (menu_items st)))"
  shows "mset items = mset (filter (\<lambda>i. is_available i \<and> attached_to c i) (menu_items st))"
    and "sorted_wrt item_precedes items"
    and "list_all is_available items"
proof -
  show "mset items = mset (filter (\<lambda>i. is_available i \<and> attached_to c i) (menu_items st))"
    by (simp add: items_def filter_filter_mset)
  have "sorted (map (\<lambda>i. (\<not> is_signature i, name_en i)) items)"
    unfolding items_def by (intro sorted_filter sorted_sort_key)
  then show "sorted_wrt item_precedes items"
    by (simp add: sorted_map item_precedes_iff [abs_def])
  show "list_all is_available items"
    by (auto simp: items_def list_all_iff)
qed


text \<open>
  C2. The categories of the home page context are exactly the active category rows, in
  ascending \<open>display_order\<close>; each carries exactly the available items that refer to it,
  signature items first and by ascending \<open>name_en\<close> among equals. No inactive category
  and no unavailable item is part of the context.
\<close>

theorem home_categories:
  "mset (map fst (categories (get_context_data settings st request)))
     = mset (filter is_active (menu_categories st))
   \<and> sorted (map (\<lambda>(c, items). display_order c) (categories (get_context_data settings st request)))
   \<and> list_all (\<lambda>(c, items).
         is_active c
         \<and> mset items = mset (filter (\<lambda>i. is_available i \<and> attached_to c i) (menu_items st))
         \<and> sorted_wrt item_precedes items
         \<and> list_all is_available items)
       (categories (get_context_data settings st request))"
proof (intro conjI)
  let ?active = "sort_key display_order (filter is_active (menu_categories st))"
  show "mset (map fst (categories (get_context_data settings st request)))
     = mset (filter is_active (menu_categories st))"
    by (simp add: categories_eq map_fst_prefetch)
  have "map (\<lambda>(c, items). display_order c) (prefetch_items st ?active)
          = map display_order (map fst (prefetch_items st ?active))"
    by (simp add: case_prod_unfold comp_def)
  also have "\<dots> = map display_order ?active"
    by (simp only: map_fst_prefetch)
  finally show "sorted (map (\<lambda>(c, items). display_order c)
                  (categories (get_context_data settings st request)))"
    by (simp only: categories_eq sorted_sort_key)
  show "list_all (\<lambda>(c, items).
         is_active c
         \<and> mset items = mset (filter (\<lambda>i. is_available i \<and> attached_to c i) (menu_items st))
         \<and> sorted_wrt item_precedes items
         \<and> list_all is_available items)
       (categories (get_context_data settings st request))"
    unfolding categories_eq
  proof (rule iffD2 [OF list_all_iff], rule ballI)
    fix x
    assume x: "x \<in> set (prefetch_items st ?active)"
    obtain c items where cx: "x = (c, items)" by (cases x)
    note m = prefetch_items_member [OF x [unfolded cx]]
    from m(1) have "is_active c" by simp
    with attached_items [of c st] have
      "is_active c
       \<and> mset items = mset (filter (\<lambda>i. is_available i \<and> attached_to c i) (menu_items st))
       \<and> sorted_wrt item_precedes items
       \<and> list_all is_available items"
      by (simp add: m(2))
    then show "case x of (c, items) \<Rightarrow>
         is_active c
         \<and> mset items = mset (filter (\<lambda>i. is_available i \<and> attached_to c i) (menu_items st))
         \<and> sorted_wrt item_precedes items
         \<and> list_all is_available items"
      by (simp add: cx)
  qed
qed

subsection \<open>Signature items\<close>

lemma islice_take: "islice xs n = take n xs"
  by (induction xs n rule: islice.induct) simp_all

lemma signature_items_eq:
  "signature_items (get_context_data settings st request) =
     islice [item. (cat, items) \<leftarrow> categories (get_context_data settings st request),
                   item \<leftarrow> items, is_signature item] 4"
  by (simp add: get_context_data_def Let_def)

lemma concat_if_filter: "concat (map (\<lambda>x. if P x then [x] else []) xs) = filter P xs"
  by (induction xs) simp_all

lemma comprehension_filter_concat:
  "[item. (cat, items) \<leftarrow> fetched, item \<leftarrow> items, is_signature item]
     = filter is_signature (concat (map snd fetched))"
  by (induction fetched) (simp_all add: concat_if_filter case_prod_unfold)


lemma length_filter_disjoint:
  "(\<And>x. \<not> (P x \<and> R x)) \<Longrightarrow>
     length (filter (\<lambda>x. P x \<or> R x) xs) = length (filter P xs) + length (filter R xs)"
  by (induction xs) auto

lemma length_filter_sort_key:
  "length (filter F (sort_key k (filter G xs))) = length (filter (\<lambda>x. G x \<and> F x) xs)"
proof -
  have "mset (filter F (sort_key k (filter G xs))) = mset (filter (\<lambda>x. G x \<and> F x) xs)"
    by (simp add: filter_filter_mset)
  then show ?thesis
    by (rule mset_eq_length)
qed

lemma attached_count:
  assumes "distinct (map MenuCategory.pk cats)"
  shows "length (filter is_signature (concat (map (\<lambda>c. filter (attached_to c) queryset) cats)))
           = length (filter (\<lambda>i. is_signature i \<and> list_ex (\<lambda>c. attached_to c i) cats) queryset)"
  using assms
proof (induction cats)
  case Nil
  then show ?case by simp
next
  case (Cons a cats)
  let ?P = "\<lambda>i. is_signature i \<and> attached_to a i"
  let ?R = "\<lambda>i. is_signature i \<and> list_ex (\<lambda>c. attached_to c i) cats"
  from Cons.prems have fresh: "MenuCategory.pk a \<notin> MenuCategory.pk ` set cats"
    and rest: "distinct (map MenuCategory.pk cats)"
    by simp_all
  have disjoint: "\<not> (?P i \<and> ?R i)" for i
  proof
    assume "?P i \<and> ?R i"
    then obtain c where "c \<in> set cats" and "attached_to c i" and "attached_to a i"
      by (auto simp: list_ex_iff)
    then have "MenuCategory.pk a = MenuCategory.pk c"
      by (simp add: attached_to_def)
    with \<open>c \<in> set cats\<close> fresh show False by auto
  qed
  have "length (filter is_signature
           (concat (map (\<lambda>c. filter (attached_to c) queryset) (a # cats))))
        = length (filter ?P queryset) + length (filter ?R queryset)"
    using Cons.IH [OF rest] by (simp add: conj_commute)
  also have "\<dots> = length (filter (\<lambda>i. ?P i \<or> ?R i) queryset)"
    using length_filter_disjoint [of ?P ?R queryset] disjoint by simp
  also have "(\<lambda>i. ?P i \<or> ?R i) = (\<lambda>i. is_signature i \<and> list_ex (\<lambda>c. attached_to c i) (a # cats))"
    by auto
  finally show ?case .
qed

lemma distinct_active:
  assumes "distinct (map MenuCategory.pk cats)"
  shows "distinct (map MenuCategory.pk (sort_key display_order (filter is_active cats)))"
proof -
  from assms have "distinct (map MenuCategory.pk (filter is_active cats))"
    by (rule distinct_map_filter)
  moreover have "mset (map MenuCategory.pk (sort_key display_order (filter is_active cats)))
                   = mset (map MenuCategory.pk (filter is_active cats))"
    by simp
  ultimately show ?thesis
    by (metis mset_eq_imp_distinct_iff)
qed

lemma candidates_count:
  assumes "distinct (map MenuCategory.pk (menu_categories st))"
  shows "length (filter is_signature
           (concat (map snd (categories (get_context_data settings st request)))))
         = length (featured st)"
proof -
  let ?active = "sort_key display_order (filter is_active (menu_categories st))"
  let ?queryset = "sort_key (\<lambda>i. (\<not> is_signature i, name_en i)) (filter is_available (menu_items st))"
  have "map snd (categories (get_context_data settings st request))
          = map (\<lambda>c. filter (attached_to c) ?queryset) ?active"
    by (simp add: categories_eq prefetch_items_def Let_def comp_def attached_to_def [abs_def])
  then have "length (filter is_signature
           (concat (map snd (categories (get_context_data settings st request)))))
      = length (filter (\<lambda>i. is_signature i \<and> list_ex (\<lambda>c. attached_to c i) ?active) ?queryset)"
    using attached_count [OF distinct_active [OF assms], of ?queryset] by simp
  also have "\<dots> = length (filter (\<lambda>i. is_available i \<and> is_signature i
                         \<and> list_ex (\<lambda>c. attached_to c i) ?active) (menu_items st))"
    by (rule length_filter_sort_key)
  also have "(\<lambda>i. is_available i \<and> is_signature i \<and> list_ex (\<lambda>c. attached_to c i) ?active)
      = (\<lambda>i. is_available i \<and> is_signature i
              \<and> list_ex (\<lambda>c. is_active c \<and> attached_to c i) (menu_categories st))"
    by (auto simp: list_ex_iff)
  finally show ?thesis
    by (simp add: featured_def)
qed

text \<open>
  C3. \<open>signature_items\<close> is the list of the signature items among the attached items of
  the fetched categories, category by category and item by item, cut after the fourth.
  It never holds more than four items; with distinct primary keys it holds as many as
  there are available signature items in active categories, up to four, so exactly four
  when there are six.
\<close>

theorem signature_items_capped:
  "signature_items (get_context_data settings st request)
     = spec_signature_items (categories (get_context_data settings st request))
   \<and> length (signature_items (get_context_data settings st request)) \<le> 4
   \<and> (distinct (map MenuCategory.pk (menu_categories st))
      \<longrightarrow> length (signature_items (get_context_data settings st request))
            = min 4 (length (featured st)))
   \<and> (distinct (map MenuCategory.pk (menu_categories st)) \<and> length (featured st) = 6
      \<longrightarrow> length (signature_items (get_context_data settings st request)) = 4)"
proof -
  have eq: "signature_items (get_context_data settings st request)
     = take 4 (filter is_signature
         (concat (map snd (categories (get_context_data settings st request)))))"
    by (simp only: signature_items_eq islice_take comprehension_filter_concat)
  have count: "length (signature_items (get_context_data settings st request))
            = min 4 (length (featured st))"
    if "distinct (map MenuCategory.pk (menu_categories st))"
    using candidates_count [OF that, of settings request] by (simp add: eq min.commute)
  from eq have "length (signature_items (get_context_data settings st request)) \<le> 4"
    by simp
  with eq count show ?thesis
    by (auto simp: spec_signature_items_def)
qed

subsection \<open>The menu evaluated\<close>

lemma menu_categories_fetched:
  "map (\<lambda>(c, items). (title_en c, map name_en items))
     (categories (get_context_data en_fa menu_state staff_request))
   = [(''Tea'', [''Chai'', ''Matcha'', ''Black Tea'']),
      (''Coffee'', [''Cortado'', ''Espresso'', ''Latte'', ''Mocha'', ''Americano''])]"
  by code_simp

lemma menu_signature_items:
  "map name_en (signature_items (get_context_data en_fa menu_state staff_request))
     = [''Chai'', ''Matcha'', ''Cortado'', ''Espresso'']"
  by code_simp

lemma menu_featured: "length (featured menu_state) = 6"
  by code_simp

lemma menu_distinct: "distinct (map MenuCategory.pk (menu_categories menu_state))"
  by code_simp

text \<open>
  On the menu of three categories and ten items, the active categories come out as Tea
  and Coffee, each with its available items, signature items first.
\<close>

theorem home_categories_witness:
  "map (\<lambda>(c, items). (title_en c, map name_en items))
     (categories (get_context_data en_fa menu_state staff_request))
   = [(''Tea'', [''Chai'', ''Matcha'', ''Black Tea'']),
      (''Coffee'', [''Cortado'', ''Espresso'', ''Latte'', ''Mocha'', ''Americano''])]
   \<and> mset (map fst (categories (get_context_data en_fa menu_state staff_request)))
       = {#coffee, tea#}
   \<and> sorted (map (\<lambda>(c, items). display_order c)
         (categories (get_context_data en_fa menu_state staff_request)))
   \<and> list_all (\<lambda>(c, items).
         is_active c
         \<and> mset items
             = mset (filter (\<lambda>i. is_available i \<and> attached_to c i) (menu_items menu_state))
         \<and> sorted_wrt item_precedes items
         \<and> list_all is_available items)
       (categories (get_context_data en_fa menu_state staff_request))"
proof -
  have active: "filter is_active (menu_categories menu_state) = [coffee, tea]"
    by (simp add: menu_state_def coffee_def tea_def juice_def)
  from home_categories [of en_fa menu_state staff_request]
  have "mset (map fst (categories (get_context_data en_fa menu_state staff_request)))
          = {#coffee, tea#}"
    by (simp add: active)
  with home_categories [of en_fa menu_state staff_request] menu_categories_fetched
  show ?thesis by blast
qed

text \<open>
  The same menu has six available signature items in active categories; the first four
  in category-then-item order are featured.
\<close>

theorem signature_items_capped_witness:
  "length (featured menu_state) = 6
   \<and> length (signature_items (get_context_data en_fa menu_state staff_request)) = 4
   \<and> map name_en (signature_items (get_context_data en_fa menu_state staff_request))
       = [''Chai'', ''Matcha'', ''Cortado'', ''Espresso'']
   \<and> signature_items (get_context_data en_fa menu_state staff_request)
       = spec_signature_items (categories (get_context_data en_fa menu_state staff_request))"
  using signature_items_capped [of en_fa menu_state staff_request]
        menu_featured menu_distinct menu_signature_items
  by blast

end
